theory Spec2Isabelle
  imports Main "HOL-Library.Sublist"
begin

section \<open>Python values shared by the hub's modules\<close>

text \<open>
  A Python \<open>dict\<close> keeps its keys in insertion order; assigning to a key that is
  already present replaces the value in place, a new key goes to the end. It is
  modelled as an association list with that discipline.
\<close>

type_synonym ('k, 'v) dict = "('k \<times> 'v) list"

definition dict_get :: "('k, 'v) dict \<Rightarrow> 'k \<Rightarrow> 'v option" where
  "dict_get d k = map_of d k"

fun dict_set :: "'k \<Rightarrow> 'v \<Rightarrow> ('k, 'v) dict \<Rightarrow> ('k, 'v) dict" where
  "dict_set k v [] = [(k, v)]"
| "dict_set k v (p # d) = (if fst p = k then (k, v) # d else p # dict_set k v d)"

definition dict_del :: "'k \<Rightarrow> ('k, 'v) dict \<Rightarrow> ('k, 'v) dict" where
  "dict_del k d = filter (\<lambda>p. fst p \<noteq> k) d"

definition dict_keys :: "('k, 'v) dict \<Rightarrow> 'k list" where
  "dict_keys d = map fst d"

definition dict_values :: "('k, 'v) dict \<Rightarrow> 'v list" where
  "dict_values d = map snd d"

text \<open>
  Exceptions are values. Each constructor is one exception class of the source (or of
  Python); the string is the datum the source interpolates into the message, not the
  message's literal text. \<open>OtherException\<close> stands for any further subclass of
  \<open>Exception\<close>, \<open>BaseExceptionOnly\<close> for a \<open>BaseException\<close> that is not an
  \<open>Exception\<close> (a cancellation, a keyboard interrupt), which \<open>except Exception\<close>
  does not catch. \<open>str_exn\<close> stands for \<open>str(e)\<close>: for an exception that comes from
  outside it is the text given with it; for one that the hub raises itself it
  is that datum, so a \<open>last_error\<close> recorded from such an exception holds the datum
  where the source holds the whole message.
\<close>

datatype exn =
    ValueError string
  | AttributeError string
  | RuntimeError string
  | MCPConnectionError string
  | MCPInitializationError string
  | MCPToolCallError string
  | RouterError string
  | ToolNotFoundError string
  | ServerNotAvailableError string
  | TenantNotFoundError string
  | QuotaExceededError string
  | OtherException string
  | BaseExceptionOnly string

fun is_Exception :: "exn \<Rightarrow> bool" where
  "is_Exception (BaseExceptionOnly m) = False"
| "is_Exception e = True"

fun str_exn :: "exn \<Rightarrow> string" where
  "str_exn (ValueError m) = m"
| "str_exn (AttributeError m) = m"
| "str_exn (RuntimeError m) = m"
| "str_exn (MCPConnectionError m) = m"
| "str_exn (MCPInitializationError m) = m"
| "str_exn (MCPToolCallError m) = m"
| "str_exn (RouterError m) = m"
| "str_exn (ToolNotFoundError m) = m"
| "str_exn (ServerNotAvailableError m) = m"
| "str_exn (TenantNotFoundError m) = m"
| "str_exn (QuotaExceededError m) = m"
| "str_exn (OtherException m) = m"
| "str_exn (BaseExceptionOnly m) = m"

section \<open>registry.py: the configuration model\<close>

record ServerConfig =
  cfg_name :: string
  cfg_type :: string
  cfg_command :: string
  cfg_args :: "string list"
  cfg_enabled :: bool

record TenantConfig =
  tc_tenant_id :: string
  tc_description :: string
  tc_servers :: "(string, ServerConfig) dict"

text \<open>The registry's \<open>tenants\<close> table; the other settings play no part below.\<close>

type_synonym Registry = "(string, TenantConfig) dict"

definition get_enabled_servers :: "TenantConfig \<Rightarrow> ServerConfig list" where
  "get_enabled_servers tc = filter cfg_enabled (dict_values (tc_servers tc))"

definition get_tenant :: "Registry \<Rightarrow> string \<Rightarrow> TenantConfig option" where
  "get_tenant reg tid = dict_get reg tid"

definition get_server_config :: "Registry \<Rightarrow> string \<Rightarrow> string \<Rightarrow> ServerConfig option" where
  "get_server_config reg tid sname =
     (case get_tenant reg tid of
        Some tenant \<Rightarrow> dict_get (tc_servers tenant) sname
      | None \<Rightarrow> None)"

section \<open>orchestrator.py: the lifecycle engine\<close>

datatype ServerState = STOPPED | STARTING | RUNNING | CRASHED | STOPPING

text \<open>
  A \<open>StdioClientWrapper\<close> object is an opaque handle (a number); what the worker
  behind it answers is given to each operation from outside. Timestamps are integers
  (microseconds). The fields \<open>process\<close> and \<open>pid\<close> are never assigned by the source
  and are left out.
\<close>

record ManagedServer =
  server_id :: string
  tenant_id :: string
  config :: ServerConfig
  state :: ServerState
  client :: "nat option"
  started_at :: "int option"
  last_error :: "string option"
  restart_count :: int

definition is_running :: "ManagedServer \<Rightarrow> bool" where
  "is_running m = (state m = RUNNING)"

definition is_stopped :: "ManagedServer \<Rightarrow> bool" where
  "is_stopped m = (state m = STOPPED \<or> state m = CRASHED)"

text \<open>
  A lifecycle event is the pair the source passes to a listener: the event name and
  the data dictionary. A listener is an external callable: \<open>obs_id\<close> is its identity,
  \<open>obs_name\<close> its \<open>__name__\<close> attribute when it has one, and \<open>obs_call\<close> what calling
  it does (\<open>None\<close>: it returns; \<open>Some e\<close>: it raises \<open>e\<close>). Listeners are taken not
  to call back into the engine.
\<close>

type_synonym event = "string \<times> (string, string) dict"

record Observer =
  obs_id :: nat
  obs_name :: "string option"
  obs_call :: "event \<Rightarrow> exn option"

text \<open>
  \<open>ManagedServer\<close> objects are shared by reference between the worker table and the
  tenant contexts, and mutated in place, so they live in a store: \<open>objects\<close> maps an
  address to the object there, \<open>next_addr\<close> is the next free address, and
  \<open>managed_servers\<close> maps a worker id to the address of its record. \<open>delivered\<close> is
  the trace of listener invocations (listener identity, event), oldest first.
\<close>

record Orchestrator =
  registry :: Registry
  managed_servers :: "(string, nat) dict"
  objects :: "nat \<Rightarrow> ManagedServer"
  next_addr :: nat
  observers :: "Observer list"
  delivered :: "(nat \<times> event) list"

definition blank_server :: ManagedServer where
  "blank_server =
     \<lparr>server_id = [], tenant_id = [],
      config = \<lparr>cfg_name = [], cfg_type = [], cfg_command = [], cfg_args = [], cfg_enabled = False\<rparr>,
      state = STOPPED, client = None, started_at = None, last_error = None, restart_count = 0\<rparr>"

definition new_orchestrator :: "Registry \<Rightarrow> Orchestrator" where
  "new_orchestrator reg =
     \<lparr>registry = reg, managed_servers = [], objects = (\<lambda>a. blank_server), next_addr = 0,
      observers = [], delivered = []\<rparr>"

definition upd_obj :: "nat \<Rightarrow> (ManagedServer \<Rightarrow> ManagedServer) \<Rightarrow> Orchestrator \<Rightarrow> Orchestrator" where
  "upd_obj a f s = s\<lparr>objects := (objects s)(a := f (objects s a))\<rparr>"

definition generate_server_id :: "string \<Rightarrow> string \<Rightarrow> string" where
  "generate_server_id tid sname = tid @ '':'' @ sname"

definition parse_server_id :: "string \<Rightarrow> exn + (string \<times> string)" where
  "parse_server_id sid =
     (if CHR '':'' \<notin> set sid then Inl (ValueError sid)
      else Inr (takeWhile (\<lambda>c. c \<noteq> CHR '':'') sid, tl (dropWhile (\<lambda>c. c \<noteq> CHR '':'') sid)))"

definition add_observer :: "Observer \<Rightarrow> Orchestrator \<Rightarrow> exn option \<times> Orchestrator" where
  "add_observer cb s =
     (case obs_name cb of
        None \<Rightarrow> (Some (AttributeError ''__name__''), s\<lparr>observers := observers s @ [cb]\<rparr>)
      | Some n \<Rightarrow> (None, s\<lparr>observers := observers s @ [cb]\<rparr>))"

fun remove_first :: "nat \<Rightarrow> Observer list \<Rightarrow> Observer list" where
  "remove_first i [] = []"
| "remove_first i (ob # obs) = (if obs_id ob = i then obs else ob # remove_first i obs)"

definition remove_observer :: "Observer \<Rightarrow> Orchestrator \<Rightarrow> exn option \<times> Orchestrator" where
  "remove_observer cb s =
     (if obs_id cb \<in> set (map obs_id (observers s)) then
        (case obs_name cb of
           None \<Rightarrow> (Some (AttributeError ''__name__''),
                     s\<lparr>observers := remove_first (obs_id cb) (observers s)\<rparr>)
         | Some n \<Rightarrow> (None, s\<lparr>observers := remove_first (obs_id cb) (observers s)\<rparr>))
      else (None, s))"

text \<open>
  \<open>_notify_observers\<close>: the loop calls each listener inside \<open>try\<close>; the handler of
  \<open>except Exception\<close> formats a log line that reads \<open>observer.__name__\<close>, which
  raises \<open>AttributeError\<close> on a callable without that attribute. The accumulator is
  the invocation trace.
\<close>

fun notify_loop :: "Observer list \<Rightarrow> event \<Rightarrow> (nat \<times> event) list \<Rightarrow> exn option \<times> (nat \<times> event) list" where
  "notify_loop [] ev tr = (None, tr)"
| "notify_loop (ob # obs) ev tr =
     (case obs_call ob ev of
        None \<Rightarrow> notify_loop obs ev (tr @ [(obs_id ob, ev)])
      | Some e \<Rightarrow>
          if is_Exception e then
            (case obs_name ob of
               None \<Rightarrow> (Some (AttributeError ''__name__''), tr @ [(obs_id ob, ev)])
             | Some n \<Rightarrow> notify_loop obs ev (tr @ [(obs_id ob, ev)]))
          else (Some e, tr @ [(obs_id ob, ev)]))"

definition notify_observers :: "event \<Rightarrow> Orchestrator \<Rightarrow> exn option \<times> Orchestrator" where
  "notify_observers ev s =
     (case notify_loop (observers s) ev (delivered s) of
        (r, tr) \<Rightarrow> (r, s\<lparr>delivered := tr\<rparr>))"

text \<open>
  What the outside world answers during one \<open>start_server\<close>: the client object that
  is created, the outcome of \<open>connect()\<close> and of \<open>initialize()\<close> (\<open>None\<close>: success),
  and the clock.
\<close>

record StartEnv =
  env_client :: nat
  env_connect :: "exn option"
  env_initialize :: "exn option"
  env_now :: int

definition running_addr :: "Orchestrator \<Rightarrow> string \<Rightarrow> nat option" where
  "running_addr s sid =
     (case dict_get (managed_servers s) sid of
        None \<Rightarrow> None
      | Some a \<Rightarrow> if is_running (objects s a) then Some a else None)"

definition is_start_failure :: "exn \<Rightarrow> bool" where
  "is_start_failure e =
     (case e of MCPConnectionError m \<Rightarrow> True | MCPInitializationError m \<Rightarrow> True | _ \<Rightarrow> False)"

text \<open>The body of the \<open>try\<close> of \<open>start_server\<close>, for the record at address \<open>a\<close>.\<close>

definition start_try :: "StartEnv \<Rightarrow> string \<Rightarrow> nat \<Rightarrow> Orchestrator \<Rightarrow> exn option \<times> Orchestrator" where
  "start_try env sid a s =
     (case env_connect env of
        Some e \<Rightarrow> (Some e, s)
      | None \<Rightarrow>
         (case env_initialize env of
            Some e \<Rightarrow> (Some e, s)
          | None \<Rightarrow>
              notify_observers (''server_started'', [(''server_id'', sid)])
                (upd_obj a (\<lambda>m. m\<lparr>state := RUNNING, client := Some (env_client env),
                                   started_at := Some (env_now env), last_error := None\<rparr>) s)))"

text \<open>\<open>start_server\<close> from the creation of the new record on.\<close>

definition start_fresh :: "StartEnv \<Rightarrow> string \<Rightarrow> string \<Rightarrow> ServerConfig \<Rightarrow> Orchestrator \<Rightarrow> (exn + nat) \<times> Orchestrator" where
  "start_fresh env sid tid cfg s =
     (let a = next_addr s;
          managed = \<lparr>server_id = sid, tenant_id = tid, config = cfg, state = STARTING,
                     client = None, started_at = None, last_error = None, restart_count = 0\<rparr>;
          s1 = s\<lparr>objects := (objects s)(a := managed), next_addr := Suc a,
                 managed_servers := dict_set sid a (managed_servers s)\<rparr>
      in case notify_observers (''server_starting'', [(''server_id'', sid)]) s1 of
           (Some e, s2) \<Rightarrow> (Inl e, s2)
         | (None, s2) \<Rightarrow>
            (case start_try env sid a s2 of
               (None, s3) \<Rightarrow> (Inr a, s3)
             | (Some e, s3) \<Rightarrow>
                 if is_start_failure e then
                   (case notify_observers
                           (''server_failed'', [(''server_id'', sid), (''error'', str_exn e)])
                           (upd_obj a (\<lambda>m. m\<lparr>state := CRASHED, last_error := Some (str_exn e)\<rparr>) s3) of
                      (Some e', s4) \<Rightarrow> (Inl e', s4)
                    | (None, s4) \<Rightarrow> (Inl e, s4))
                 else (Inl e, s3)))"

text \<open>\<open>start_server\<close> returns the record, that is, its address in the store.\<close>

definition start_server :: "StartEnv \<Rightarrow> string \<Rightarrow> Orchestrator \<Rightarrow> (exn + nat) \<times> Orchestrator" where
  "start_server env sid s =
     (case parse_server_id sid of
        Inl e \<Rightarrow> (Inl e, s)
      | Inr (tid, sname) \<Rightarrow>
         (case get_server_config (registry s) tid sname of
            None \<Rightarrow> (Inl (ValueError sid), s)
          | Some cfg \<Rightarrow>
             (case running_addr s sid of
                Some a \<Rightarrow> (Inr a, s)
              | None \<Rightarrow> start_fresh env sid tid cfg s)))"

fun start_each :: "(string \<Rightarrow> StartEnv) \<Rightarrow> string \<Rightarrow> ServerConfig list \<Rightarrow> nat list \<Rightarrow> Orchestrator \<Rightarrow> (exn + nat list) \<times> Orchestrator" where
  "start_each env tid [] started s = (Inr started, s)"
| "start_each env tid (cfg # cfgs) started s =
     (case start_server (env (generate_server_id tid (cfg_name cfg)))
             (generate_server_id tid (cfg_name cfg)) s of
        (Inr a, s') \<Rightarrow> start_each env tid cfgs (started @ [a]) s'
      | (Inl e, s') \<Rightarrow>
          if is_Exception e then start_each env tid cfgs started s' else (Inl e, s'))"

definition start_tenant_servers :: "(string \<Rightarrow> StartEnv) \<Rightarrow> string \<Rightarrow> Orchestrator \<Rightarrow> (exn + nat list) \<times> Orchestrator" where
  "start_tenant_servers env tid s =
     (case get_tenant (registry s) tid of
        None \<Rightarrow> (Inl (ValueError tid), s)
      | Some tenant \<Rightarrow> start_each env tid (get_enabled_servers tenant) [] s)"

text \<open>The body of the \<open>try\<close> of \<open>stop_server\<close>; \<open>disc\<close> is the outcome of \<open>disconnect()\<close>.\<close>

definition stop_try :: "exn option \<Rightarrow> string \<Rightarrow> nat \<Rightarrow> Orchestrator \<Rightarrow> exn option \<times> Orchestrator" where
  "stop_try disc sid a s =
     (case (if client (objects s a) \<noteq> None then disc else None) of
        Some e \<Rightarrow> (Some e, s)
      | None \<Rightarrow>
          notify_observers (''server_stopped'', [(''server_id'', sid)])
            (upd_obj a (\<lambda>m. m\<lparr>state := STOPPED, started_at := None\<rparr>)
               (if client (objects s a) \<noteq> None then upd_obj a (\<lambda>m. m\<lparr>client := None\<rparr>) s else s)))"

definition stop_server :: "exn option \<Rightarrow> string \<Rightarrow> Orchestrator \<Rightarrow> exn option \<times> Orchestrator" where
  "stop_server disc sid s =
     (case dict_get (managed_servers s) sid of
        None \<Rightarrow> (None, s)
      | Some a \<Rightarrow>
          if is_stopped (objects s a) then (None, s)
          else
            (case notify_observers (''server_stopping'', [(''server_id'', sid)])
                    (upd_obj a (\<lambda>m. m\<lparr>state := STOPPING\<rparr>) s) of
               (Some e, s2) \<Rightarrow> (Some e, s2)
             | (None, s2) \<Rightarrow>
                (case stop_try disc sid a s2 of
                   (None, s3) \<Rightarrow> (None, s3)
                 | (Some e, s3) \<Rightarrow>
                     if is_Exception e then
                       (None, upd_obj a (\<lambda>m. m\<lparr>state := CRASHED, last_error := Some (str_exn e)\<rparr>) s3)
                     else (Some e, s3))))"

fun stop_each :: "(string \<Rightarrow> exn option) \<Rightarrow> string list \<Rightarrow> Orchestrator \<Rightarrow> exn option \<times> Orchestrator" where
  "stop_each disc [] s = (None, s)"
| "stop_each disc (sid # sids) s =
     (case stop_server (disc sid) sid s of
        (Some e, s') \<Rightarrow> (Some e, s')
      | (None, s') \<Rightarrow> stop_each disc sids s')"

definition stop_tenant_servers :: "(string \<Rightarrow> exn option) \<Rightarrow> string \<Rightarrow> Orchestrator \<Rightarrow> exn option \<times> Orchestrator" where
  "stop_tenant_servers disc tid s =
     stop_each disc
       (map fst (filter (\<lambda>(sid, a). tenant_id (objects s a) = tid \<and> is_running (objects s a))
                   (managed_servers s))) s"

definition stop_all :: "(string \<Rightarrow> exn option) \<Rightarrow> Orchestrator \<Rightarrow> exn option \<times> Orchestrator" where
  "stop_all disc s = stop_each disc (dict_keys (managed_servers s)) s"

definition get_server_client :: "Orchestrator \<Rightarrow> string \<Rightarrow> nat option" where
  "get_server_client s sid =
     (case dict_get (managed_servers s) sid of
        None \<Rightarrow> None
      | Some a \<Rightarrow> if is_running (objects s a) then client (objects s a) else None)"

record ServerStatus =
  st_server_id :: string
  st_tenant_id :: string
  st_state :: ServerState
  st_config :: "string \<times> string \<times> string \<times> bool"
  st_started_at :: "int option"
  st_last_error :: "string option"
  st_restart_count :: int

definition get_server_status :: "Orchestrator \<Rightarrow> string \<Rightarrow> ServerStatus option" where
  "get_server_status s sid =
     (case dict_get (managed_servers s) sid of
        None \<Rightarrow> None
      | Some a \<Rightarrow>
          Some \<lparr>st_server_id = sid, st_tenant_id = tenant_id (objects s a),
                st_state = state (objects s a),
                st_config = (cfg_name (config (objects s a)), cfg_type (config (objects s a)),
                             cfg_command (config (objects s a)), cfg_enabled (config (objects s a))),
                st_started_at = started_at (objects s a),
                st_last_error = last_error (objects s a),
                st_restart_count = restart_count (objects s a)\<rparr>)"

definition handle_server_failure :: "string \<Rightarrow> string \<Rightarrow> Orchestrator \<Rightarrow> exn option \<times> Orchestrator" where
  "handle_server_failure sid err s =
     (case dict_get (managed_servers s) sid of
        None \<Rightarrow> (None, s)
      | Some a \<Rightarrow>
          notify_observers (''server_failed'', [(''server_id'', sid), (''error'', err)])
            (upd_obj a (\<lambda>m. m\<lparr>state := CRASHED, last_error := Some err\<rparr>) s))"

text \<open>
  One pass of the health loop, \<open>_check_servers\<close>; \<open>conn\<close> is the \<open>is_connected\<close>
  flag of each client at that moment. The error text is the source's, in UTF-8 (its
  accented letter is two bytes).
\<close>

fun check_each :: "(nat \<Rightarrow> bool) \<Rightarrow> (string \<times> nat) list \<Rightarrow> Orchestrator \<Rightarrow> exn option \<times> Orchestrator" where
  "check_each conn [] s = (None, s)"
| "check_each conn (p # rest) s =
     (if \<not> is_running (objects s (snd p)) then check_each conn rest s
      else if (case client (objects s (snd p)) of None \<Rightarrow> True | Some c \<Rightarrow> \<not> conn c) then
        (case handle_server_failure (fst p) (''Conexi'' @ [CHR 0xC3, CHR 0xB3] @ ''n perdida'') s of
           (None, s') \<Rightarrow> check_each conn rest s'
         | (Some e, s') \<Rightarrow> if is_Exception e then check_each conn rest s' else (Some e, s'))
      else check_each conn rest s)"

definition check_servers :: "(nat \<Rightarrow> bool) \<Rightarrow> Orchestrator \<Rightarrow> exn option \<times> Orchestrator" where
  "check_servers conn s = check_each conn (managed_servers s) s"

text \<open>
  \<open>Registry.reload\<close> re-reads the configuration file into the registry object the
  engine holds; \<open>reg\<close> is the tenant table the file then yields.
\<close>

definition reload :: "Registry \<Rightarrow> Orchestrator \<Rightarrow> Orchestrator" where
  "reload reg s = s\<lparr>registry := reg\<rparr>"

text \<open>
  The engine states that its operations can produce, whatever the world answers. Each
  operation runs to its end before the next one begins: interleavings of coroutines at
  their suspension points are not modelled.
\<close>

inductive reachable :: "Orchestrator \<Rightarrow> bool" where
  r_init: "reachable (new_orchestrator reg)"
| r_reload: "reachable s \<Longrightarrow> reachable (reload reg s)"
| r_add_observer: "reachable s \<Longrightarrow> reachable (snd (add_observer cb s))"
| r_remove_observer: "reachable s \<Longrightarrow> reachable (snd (remove_observer cb s))"
| r_start_server: "reachable s \<Longrightarrow> reachable (snd (start_server env sid s))"
| r_start_tenant_servers: "reachable s \<Longrightarrow> reachable (snd (start_tenant_servers envs tid s))"
| r_stop_server: "reachable s \<Longrightarrow> reachable (snd (stop_server disc sid s))"
| r_stop_tenant_servers: "reachable s \<Longrightarrow> reachable (snd (stop_tenant_servers discs tid s))"
| r_stop_all: "reachable s \<Longrightarrow> reachable (snd (stop_all discs s))"
| r_check_servers: "reachable s \<Longrightarrow> reachable (snd (check_servers conn s))"

section \<open>router.py: the tool catalog\<close>

record ToolInfo =
  ti_name :: string
  ti_description :: string
  ti_input_schema :: string

record ToolRegistration =
  tool_id :: string
  reg_server_id :: string
  original_name :: string
  prefixed_name :: string
  description :: string
  input_schema :: string

text \<open>
  What a client object answers when the router uses it: its \<open>is_initialized\<close>
  flag, the outcome of \<open>list_tools()\<close>, and the outcome of
  \<open>call_tool(name, arguments, timeout)\<close>. The world maps each client handle to its
  answers.
\<close>

record ClientView =
  cv_is_initialized :: bool
  cv_list_tools :: "exn + ToolInfo list"
  cv_call_tool :: "string \<Rightarrow> string \<Rightarrow> int option \<Rightarrow> exn + string"

type_synonym world = "nat \<Rightarrow> ClientView"

text \<open>The router's \<open>tools\<close> dictionary, keyed by tool id.\<close>

type_synonym catalog = "(string, ToolRegistration) dict"

definition generate_prefixed_name :: "string \<Rightarrow> string \<Rightarrow> exn + string" where
  "generate_prefixed_name sid tname =
     (case parse_server_id sid of
        Inl e \<Rightarrow> Inl e
      | Inr (tid, sname) \<Rightarrow> Inr (sname @ ''.'' @ tname))"

definition generate_tool_id :: "string \<Rightarrow> string \<Rightarrow> string" where
  "generate_tool_id sid tname = sid @ '':'' @ tname"

text \<open>
  The \<open>for tool in tools\<close> loop of \<open>discover_tools\<close>, and the
  \<open>ToolRegistration(...)\<close> it builds for one listed tool.
\<close>

definition new_registration :: "string \<Rightarrow> string \<Rightarrow> ToolInfo \<Rightarrow> ToolRegistration" where
  "new_registration sid pn t =
     \<lparr>tool_id = generate_tool_id sid (ti_name t), reg_server_id = sid,
      original_name = ti_name t, prefixed_name = pn,
      description = ti_description t, input_schema = ti_input_schema t\<rparr>"

fun register_each :: "string \<Rightarrow> ToolInfo list \<Rightarrow> ToolRegistration list \<Rightarrow> catalog \<Rightarrow> (exn + ToolRegistration list) \<times> catalog" where
  "register_each sid [] discovered cat = (Inr discovered, cat)"
| "register_each sid (t # ts) discovered cat =
     (case generate_prefixed_name sid (ti_name t) of
        Inl e \<Rightarrow> (Inl e, cat)
      | Inr pn \<Rightarrow>
          register_each sid ts (discovered @ [new_registration sid pn t])
            (dict_set (generate_tool_id sid (ti_name t)) (new_registration sid pn t) cat))"

definition discover_tools :: "world \<Rightarrow> Orchestrator \<Rightarrow> string \<Rightarrow> catalog \<Rightarrow> (exn + ToolRegistration list) \<times> catalog" where
  "discover_tools w orch sid cat =
     (case get_server_client orch sid of
        None \<Rightarrow> (Inl (ServerNotAvailableError sid), cat)
      | Some c \<Rightarrow>
          if \<not> cv_is_initialized (w c) then (Inl (ServerNotAvailableError sid), cat)
          else
            (case (case cv_list_tools (w c) of
                     Inl e \<Rightarrow> (Inl e, cat)
                   | Inr tis \<Rightarrow> register_each sid tis [] cat) of
               (Inr discovered, cat') \<Rightarrow> (Inr discovered, cat')
             | (Inl e, cat') \<Rightarrow>
                 if is_Exception e then (Inl (RouterError (str_exn e)), cat') else (Inl e, cat')))"

definition get_tool :: "catalog \<Rightarrow> string \<Rightarrow> ToolRegistration option" where
  "get_tool cat tname = find (\<lambda>reg. prefixed_name reg = tname) (dict_values cat)"

definition get_tools_by_server :: "catalog \<Rightarrow> string \<Rightarrow> ToolRegistration list" where
  "get_tools_by_server cat sid = filter (\<lambda>reg. reg_server_id reg = sid) (dict_values cat)"

text \<open>
  \<open>clear_tools(server_id=None)\<close> tests \<open>if server_id:\<close>, so both \<open>None\<close> and the
  empty string clear the whole catalog.
\<close>

definition clear_tools :: "string option \<Rightarrow> catalog \<Rightarrow> catalog" where
  "clear_tools server cat =
     (case server of
        None \<Rightarrow> []
      | Some sid \<Rightarrow>
          if sid = [] then []
          else fold dict_del (map fst (filter (\<lambda>p. reg_server_id (snd p) = sid) cat)) cat)"

definition call_tool :: "world \<Rightarrow> Orchestrator \<Rightarrow> catalog \<Rightarrow> string \<Rightarrow> string \<Rightarrow> int option \<Rightarrow> exn + string" where
  "call_tool w orch cat tname arguments timeout =
     (case find (\<lambda>reg. prefixed_name reg = tname) (dict_values cat) of
        None \<Rightarrow> Inl (ToolNotFoundError tname)
      | Some registration \<Rightarrow>
         (case get_server_client orch (reg_server_id registration) of
            None \<Rightarrow> Inl (ServerNotAvailableError (reg_server_id registration))
          | Some c \<Rightarrow>
             (case cv_call_tool (w c) (original_name registration) arguments timeout of
                Inr result \<Rightarrow> Inr result
              | Inl e \<Rightarrow>
                 (case e of
                    MCPToolCallError m \<Rightarrow> Inl e
                  | _ \<Rightarrow> if is_Exception e then Inl (RouterError (str_exn e)) else Inl e))))"

section \<open>multitenant.py: tenant contexts and quotas\<close>

text \<open>
  A context's \<open>servers\<close> dictionary holds references to \<open>ManagedServer\<close> objects:
  addresses in the engine's store. The \<open>metrics\<close> field is never written and is left
  out.
\<close>

record TenantContext =
  ctx_tenant_id :: string
  ctx_config :: TenantConfig
  ctx_servers :: "(string, nat) dict"
  ctx_tools :: "string list"
  ctx_created_at :: int
  ctx_last_activity :: int

text \<open>
  The manager together with the engine and the router it drives. The manager's
  registry is the engine's (the registry is one shared object).
\<close>

record Hub =
  orch :: Orchestrator
  router :: catalog
  tenants :: "(string, TenantContext) dict"
  quotas :: "(string, (string, int) dict) dict"

definition new_hub :: "Registry \<Rightarrow> Hub" where
  "new_hub reg = \<lparr>orch = new_orchestrator reg, router = [], tenants = [], quotas = []\<rparr>"

definition get_active_servers :: "Orchestrator \<Rightarrow> TenantContext \<Rightarrow> nat list" where
  "get_active_servers s ctx = filter (\<lambda>a. is_running (objects s a)) (dict_values (ctx_servers ctx))"

definition is_active :: "Orchestrator \<Rightarrow> TenantContext \<Rightarrow> bool" where
  "is_active s ctx = (length (get_active_servers s ctx) > 0)"

definition default_quotas :: "(string, int) dict" where
  "default_quotas =
     [(''max_servers'', 10), (''max_tools_per_server'', 100), (''max_concurrent_requests'', 50)]"

text \<open>A quota limit is an integer, or \<open>float('inf')\<close> for a kind with no default.\<close>

datatype limit = Finite int | Infinite

fun at_least :: "nat \<Rightarrow> limit \<Rightarrow> bool" where
  "at_least n (Finite k) = (int n \<ge> k)"
| "at_least n Infinite = False"

fun above :: "nat \<Rightarrow> limit \<Rightarrow> bool" where
  "above n (Finite k) = (int n > k)"
| "above n Infinite = False"

definition set_quota :: "string \<Rightarrow> string \<Rightarrow> int \<Rightarrow> Hub \<Rightarrow> Hub" where
  "set_quota tid quota_type lim h =
     h\<lparr>quotas :=
         dict_set tid
           (dict_set quota_type lim (case dict_get (quotas h) tid of None \<Rightarrow> [] | Some q \<Rightarrow> q))
           (quotas h)\<rparr>"

definition get_quota :: "Hub \<Rightarrow> string \<Rightarrow> string \<Rightarrow> limit" where
  "get_quota h tid quota_type =
     (case (case dict_get (quotas h) tid of None \<Rightarrow> None | Some q \<Rightarrow> dict_get q quota_type) of
        Some lim \<Rightarrow> Finite lim
      | None \<Rightarrow>
         (case dict_get default_quotas quota_type of
            Some lim \<Rightarrow> Finite lim
          | None \<Rightarrow> Infinite))"

fun check_tools_each :: "catalog \<Rightarrow> limit \<Rightarrow> string \<Rightarrow> string list \<Rightarrow> exn + bool" where
  "check_tools_each cat lim tid [] = Inr True"
| "check_tools_each cat lim tid (sid # sids) =
     (if above (length (get_tools_by_server cat sid)) lim then Inl (QuotaExceededError tid)
      else check_tools_each cat lim tid sids)"

definition check_quota :: "Hub \<Rightarrow> string \<Rightarrow> string \<Rightarrow> exn + bool" where
  "check_quota h tid quota_type =
     (case dict_get (tenants h) tid of
        None \<Rightarrow> Inr True
      | Some context \<Rightarrow>
          if quota_type = ''max_servers'' then
            (if at_least (length (ctx_servers context)) (get_quota h tid quota_type)
             then Inl (QuotaExceededError tid) else Inr True)
          else if quota_type = ''max_tools_per_server'' then
            check_tools_each (router h) (get_quota h tid quota_type) tid (dict_keys (ctx_servers context))
          else Inr True)"

definition get_or_create_tenant :: "int \<Rightarrow> string \<Rightarrow> Hub \<Rightarrow> (exn + TenantContext) \<times> Hub" where
  "get_or_create_tenant now tid h =
     (case dict_get (tenants h) tid of
        Some context \<Rightarrow>
          (Inr (context\<lparr>ctx_last_activity := now\<rparr>),
           h\<lparr>tenants := dict_set tid (context\<lparr>ctx_last_activity := now\<rparr>) (tenants h)\<rparr>)
      | None \<Rightarrow>
         (case get_tenant (registry (orch h)) tid of
            None \<Rightarrow> (Inl (TenantNotFoundError tid), h)
          | Some cfg \<Rightarrow>
              (Inr \<lparr>ctx_tenant_id = tid, ctx_config = cfg, ctx_servers = [], ctx_tools = [],
                    ctx_created_at = now, ctx_last_activity = now\<rparr>,
               h\<lparr>tenants := dict_set tid
                     \<lparr>ctx_tenant_id = tid, ctx_config = cfg, ctx_servers = [], ctx_tools = [],
                      ctx_created_at = now, ctx_last_activity = now\<rparr> (tenants h)\<rparr>)))"

text \<open>The discovery loop of the manager: a failure of one worker is logged and skipped.\<close>

fun discover_each :: "world \<Rightarrow> Orchestrator \<Rightarrow> string list \<Rightarrow> catalog \<Rightarrow> exn option \<times> catalog" where
  "discover_each w s [] cat = (None, cat)"
| "discover_each w s (sid # sids) cat =
     (case discover_tools w s sid cat of
        (Inr regs, cat') \<Rightarrow> discover_each w s sids cat'
      | (Inl e, cat') \<Rightarrow> if is_Exception e then discover_each w s sids cat' else (Some e, cat'))"

text \<open>
  The manager's \<open>start_tenant_servers\<close>. The context is an object the table refers
  to; its updates are written back under the tenant id. \<open>now\<close> is the clock.
\<close>

definition manager_start_tenant_servers :: "world \<Rightarrow> (string \<Rightarrow> StartEnv) \<Rightarrow> int \<Rightarrow> string \<Rightarrow> Hub \<Rightarrow> (exn + nat list) \<times> Hub" where
  "manager_start_tenant_servers w envs now tid h =
     (case get_or_create_tenant now tid h of
        (Inl e, h1) \<Rightarrow> (Inl e, h1)
      | (Inr context, h1) \<Rightarrow>
         (case check_quota h1 tid ''max_servers'' of
            Inl e \<Rightarrow> (Inl e, h1)
          | Inr ok \<Rightarrow>
             (case start_tenant_servers envs tid (orch h1) of
                (Inl e, s2) \<Rightarrow> (Inl e, h1\<lparr>orch := s2\<rparr>)
              | (Inr started, s2) \<Rightarrow>
                 (case discover_each w s2 (map (\<lambda>a. server_id (objects s2 a)) started) (router h1) of
                    (Some e, cat') \<Rightarrow>
                      (Inl e,
                       h1\<lparr>orch := s2, router := cat',
                          tenants := dict_set tid
                            (context\<lparr>ctx_servers :=
                                fold (\<lambda>a. dict_set (server_id (objects s2 a)) a) started (ctx_servers context)\<rparr>)
                            (tenants h1)\<rparr>)
                  | (None, cat') \<Rightarrow>
                      (Inr started,
                       h1\<lparr>orch := s2, router := cat',
                          tenants := dict_set tid
                            (context\<lparr>ctx_servers :=
                                fold (\<lambda>a. dict_set (server_id (objects s2 a)) a) started (ctx_servers context),
                              ctx_tools :=
                                concat (map (\<lambda>a. map prefixed_name
                                                    (get_tools_by_server cat' (server_id (objects s2 a))))
                                          started),
                              ctx_last_activity := now\<rparr>)
                            (tenants h1)\<rparr>)))))"

definition manager_stop_tenant_servers :: "(string \<Rightarrow> exn option) \<Rightarrow> int \<Rightarrow> string \<Rightarrow> Hub \<Rightarrow> exn option \<times> Hub" where
  "manager_stop_tenant_servers discs now tid h =
     (case stop_tenant_servers discs tid (orch h) of
        (Some e, s') \<Rightarrow> (Some e, h\<lparr>orch := s'\<rparr>)
      | (None, s') \<Rightarrow>
         (case dict_get (tenants h) tid of
            None \<Rightarrow> (None, h\<lparr>orch := s'\<rparr>)
          | Some context \<Rightarrow>
              (None,
               h\<lparr>orch := s',
                 router := fold (\<lambda>sid. clear_tools (Some sid)) (dict_keys (ctx_servers context)) (router h),
                 tenants := dict_set tid
                   (context\<lparr>ctx_servers := [], ctx_tools := [], ctx_last_activity := now\<rparr>)
                   (tenants h)\<rparr>)))"

text \<open>
  \<open>cleanup_inactive_tenants\<close> iterates over \<open>self.tenants.items()\<close> and deletes from
  \<open>self.tenants\<close> inside the loop. A Python dictionary iterator checks, each time it is
  asked for the next item (also the time that would end the loop), that the size of the
  dictionary is the one it started with, and raises \<open>RuntimeError\<close> otherwise. The
  flag \<open>changed\<close> records that a deletion has happened since the iteration began;
  before the first deletion the items are those of the table at the start. Times are
  in microseconds, \<open>idle_timeout\<close> in seconds. The source compares the float
  \<open>total_seconds()\<close> of the idle time with the threshold; the model compares the
  exact values. The two agree for every threshold below \<open>2^34\<close> seconds, where the
  rounding of the float is finer than a microsecond; beyond that the rounding can make
  the source keep a context whose idle time exceeds the threshold by less than the
  spacing of the floats there.
\<close>

fun cleanup_loop :: "(string \<Rightarrow> exn option) \<Rightarrow> int \<Rightarrow> int \<Rightarrow> (string \<times> TenantContext) list \<Rightarrow> bool \<Rightarrow> string list \<Rightarrow> Hub \<Rightarrow> (exn + string list) \<times> Hub" where
  "cleanup_loop discs now idle_timeout [] changed cleaned h =
     (if changed then (Inl (RuntimeError ''dictionary changed size during iteration''), h)
      else (Inr cleaned, h))"
| "cleanup_loop discs now idle_timeout (p # rest) changed cleaned h =
     (if changed then (Inl (RuntimeError ''dictionary changed size during iteration''), h)
      else if now - ctx_last_activity (snd p) > idle_timeout * 1000000 \<and> \<not> is_active (orch h) (snd p) then
        (case manager_stop_tenant_servers discs now (fst p) h of
           (Some e, h') \<Rightarrow> (Inl e, h')
         | (None, h') \<Rightarrow>
             cleanup_loop discs now idle_timeout rest True (cleaned @ [fst p])
               (h'\<lparr>tenants := dict_del (fst p) (tenants h')\<rparr>))
      else cleanup_loop discs now idle_timeout rest changed cleaned h)"

definition cleanup_inactive_tenants :: "(string \<Rightarrow> exn option) \<Rightarrow> int \<Rightarrow> int \<Rightarrow> Hub \<Rightarrow> (exn + string list) \<times> Hub" where
  "cleanup_inactive_tenants discs now idle_timeout h =
     cleanup_loop discs now idle_timeout (tenants h) False [] h"

text \<open>The hub states produced by the manager's operations, whatever the world answers.\<close>

inductive hub_reachable :: "Hub \<Rightarrow> bool" where
  h_init: "hub_reachable (new_hub reg)"
| h_set_quota: "hub_reachable h \<Longrightarrow> hub_reachable (set_quota tid quota_type lim h)"
| h_get_or_create: "hub_reachable h \<Longrightarrow> hub_reachable (snd (get_or_create_tenant now tid h))"
| h_start: "hub_reachable h \<Longrightarrow> hub_reachable (snd (manager_start_tenant_servers w envs now tid h))"
| h_stop: "hub_reachable h \<Longrightarrow> hub_reachable (snd (manager_stop_tenant_servers discs now tid h))"

section \<open>Invariants\<close>

text \<open>
  What holds of every \<open>ManagedServer\<close> object the engine has made: its restart
  counter is zero, and a record in state \<open>RUNNING\<close> holds a client.
\<close>

definition sound_record :: "ManagedServer \<Rightarrow> bool" where
  "sound_record m = (restart_count m = 0 \<and> (state m = RUNNING \<longrightarrow> client m \<noteq> None))"

definition engine_inv :: "Orchestrator \<Rightarrow> bool" where
  "engine_inv s = (\<forall>a. sound_record (objects s a))"

text \<open>
  The worker table refers to allocated records, and each record sits under its own
  id. \<open>same_ids\<close> relates two engine states with the same table and the same id in
  every record.
\<close>

definition table_ok :: "Orchestrator \<Rightarrow> bool" where
  "table_ok s = (\<forall>p \<in> set (managed_servers s). snd p < next_addr s \<and> server_id (objects s (snd p)) = fst p)"

definition same_ids :: "Orchestrator \<Rightarrow> Orchestrator \<Rightarrow> bool" where
  "same_ids s s' = (managed_servers s' = managed_servers s \<and> next_addr s' = next_addr s \<and>
       (\<forall>a. server_id (objects s' a) = server_id (objects s a)))"

text \<open>
  Every catalog entry carries the dotted name that \<open>_generate_prefixed_name\<close> makes
  from its server id and its original name.
\<close>

definition catalog_ok :: "catalog \<Rightarrow> bool" where
  "catalog_ok cat =
     (\<forall>p \<in> set cat. \<exists>T S. parse_server_id (reg_server_id (snd p)) = Inr (T, S) \<and>
         prefixed_name (snd p) = S @ ''.'' @ original_name (snd p))"

text \<open>
  The short names of the workers a context tracks: the part after the first colon of
  each tracked worker id, as \<open>_parse_server_id\<close> splits it.
\<close>

definition tracked_short_names :: "TenantContext \<Rightarrow> string list" where
  "tracked_short_names ctx =
     concat (map (\<lambda>k. case parse_server_id k of Inl e \<Rightarrow> [] | Inr p \<Rightarrow> [snd p])
               (dict_keys (ctx_servers ctx)))"

text \<open>
  A context carries the tenant id it is stored under, every worker id it tracks is
  one that \<open>generate_server_id\<close> makes for that tenant, and every tool name it lists
  begins with the short name of a tracked worker, followed by a dot.
\<close>

definition context_ok :: "string \<Rightarrow> TenantContext \<Rightarrow> bool" where
  "context_ok tid ctx =
     (ctx_tenant_id ctx = tid \<and>
      (\<forall>k \<in> set (dict_keys (ctx_servers ctx)). \<exists>n. k = generate_server_id tid n) \<and>
      (\<forall>name \<in> set (ctx_tools ctx). \<exists>S \<in> set (tracked_short_names ctx). \<exists>tname. name = S @ ''.'' @ tname))"

definition hub_inv :: "Hub \<Rightarrow> bool" where
  "hub_inv h =
     (table_ok (orch h) \<and> catalog_ok (router h) \<and>
      (\<forall>p \<in> set (tenants h). context_ok (fst p) (snd p)))"

section \<open>Example inputs\<close>

text \<open>
  A registry with one tenant \<open>t\<close> and one enabled worker \<open>w\<close>, a world in which that
  worker starts, and the engine after \<open>start_server("t:w")\<close> from scratch.
\<close>

definition demo_cfg :: ServerConfig where
  "demo_cfg =
     \<lparr>cfg_name = ''w'', cfg_type = ''api'', cfg_command = ''run'', cfg_args = [], cfg_enabled = True\<rparr>"

definition demo_registry :: Registry where
  "demo_registry =
     [(''t'', \<lparr>tc_tenant_id = ''t'', tc_description = [], tc_servers = [(''w'', demo_cfg)]\<rparr>)]"

definition demo_env :: StartEnv where
  "demo_env = \<lparr>env_client = 7, env_connect = None, env_initialize = None, env_now = 1000\<rparr>"

definition demo_running :: Orchestrator where
  "demo_running = snd (start_server demo_env ''t:w'' (new_orchestrator demo_registry))"

text \<open>
  The same engine after the connection of the worker failed during its start.
\<close>

definition demo_crashed :: Orchestrator where
  "demo_crashed =
     snd (start_server (demo_env\<lparr>env_connect := Some (MCPConnectionError ''refused'')\<rparr>) ''t:w''
            (new_orchestrator demo_registry))"

text \<open>
  Two listeners: the first is a callable without \<open>__name__\<close> (a
  \<open>functools.partial\<close> object, an instance with \<open>__call__\<close>) that raises
  \<open>ValueError\<close>; the second is an ordinary function that returns.
\<close>

definition nameless_failing :: Observer where
  "nameless_failing = \<lparr>obs_id = 1, obs_name = None, obs_call = (\<lambda>ev. Some (ValueError ''boom''))\<rparr>"

definition quiet_listener :: Observer where
  "quiet_listener = \<lparr>obs_id = 2, obs_name = Some ''on_event'', obs_call = (\<lambda>ev. None)\<rparr>"

text \<open>
  A world in which every client is initialised and lists one tool, \<open>add\<close>, whose call
  fails with \<open>MCPToolCallError\<close> on the argument \<open>bad\<close>; a world in which every
  client has lost its session; and the catalog after discovering \<open>t:w\<close>.
\<close>

definition demo_world :: world where
  "demo_world = (\<lambda>c.
     \<lparr>cv_is_initialized = True,
      cv_list_tools = Inr [\<lparr>ti_name = ''add'', ti_description = ''adds'', ti_input_schema = ''{}''\<rparr>],
      cv_call_tool = (\<lambda>n a t. if a = ''bad'' then Inl (MCPToolCallError ''failed'') else Inr ''3'')\<rparr>)"

definition demo_world_closed :: world where
  "demo_world_closed = (\<lambda>c.
     \<lparr>cv_is_initialized = False,
      cv_list_tools = Inl (MCPConnectionError ''closed''),
      cv_call_tool = (\<lambda>n a t. Inl (MCPConnectionError ''closed''))\<rparr>)"

definition demo_catalog :: catalog where
  "demo_catalog = snd (discover_tools demo_world demo_running ''t:w'' [])"

text \<open>
  A tenant \<open>t\<close> with the workers \<open>a\<close> and \<open>a.b\<close>; worker \<open>a\<close> (client 1) exposes
  the operation \<open>b.c\<close>, worker \<open>a.b\<close> (client 2) exposes the operation \<open>c\<close>. Both
  are started, then \<open>t:a\<close> and \<open>t:a.b\<close> are discovered, in that order.
\<close>

definition collide_registry :: Registry where
  "collide_registry =
     [(''t'', \<lparr>tc_tenant_id = ''t'', tc_description = [],
               tc_servers = [(''a'', demo_cfg\<lparr>cfg_name := ''a''\<rparr>),
                             (''a.b'', demo_cfg\<lparr>cfg_name := ''a.b''\<rparr>)]\<rparr>)]"

definition collide_envs :: "string \<Rightarrow> StartEnv" where
  "collide_envs sid = demo_env\<lparr>env_client := (if sid = ''t:a'' then 1 else 2)\<rparr>"

definition collide_engine :: Orchestrator where
  "collide_engine = snd (start_tenant_servers collide_envs ''t'' (new_orchestrator collide_registry))"

definition collide_world :: world where
  "collide_world = (\<lambda>c.
     \<lparr>cv_is_initialized = True,
      cv_list_tools =
        Inr [\<lparr>ti_name = (if c = 1 then ''b.c'' else ''c''), ti_description = [], ti_input_schema = []\<rparr>],
      cv_call_tool = (\<lambda>n a t. Inr [])\<rparr>)"

definition collide_catalog :: catalog where
  "collide_catalog =
     snd (discover_tools collide_world collide_engine ''t:a.b''
            (snd (discover_tools collide_world collide_engine ''t:a'' [])))"

text \<open>
  The hub after \<open>get_or_create_tenant("t")\<close> at time 0: one context, without
  workers.
\<close>

definition demo_hub :: Hub where
  "demo_hub = snd (get_or_create_tenant 0 ''t'' (new_hub demo_registry))"

text \<open>
  Two tenants \<open>t1\<close> and \<open>t2\<close>, each with one worker named \<open>echo\<close>; the hub after
  the manager started the workers of \<open>t1\<close> and then those of \<open>t2\<close>, in the world
  where every worker exposes \<open>add\<close>.
\<close>

definition twin_registry :: Registry where
  "twin_registry =
     [(''t1'', \<lparr>tc_tenant_id = ''t1'', tc_description = [],
                tc_servers = [(''echo'', demo_cfg\<lparr>cfg_name := ''echo''\<rparr>)]\<rparr>),
      (''t2'', \<lparr>tc_tenant_id = ''t2'', tc_description = [],
                tc_servers = [(''echo'', demo_cfg\<lparr>cfg_name := ''echo''\<rparr>)]\<rparr>)]"

definition twin_envs :: "string \<Rightarrow> StartEnv" where
  "twin_envs sid = demo_env\<lparr>env_client := (if sid = ''t1:echo'' then 1 else 2)\<rparr>"

definition twin_hub1 :: Hub where
  "twin_hub1 = snd (manager_start_tenant_servers demo_world twin_envs 10 ''t1'' (new_hub twin_registry))"

definition twin_hub :: Hub where
  "twin_hub = snd (manager_start_tenant_servers demo_world twin_envs 20 ''t2'' twin_hub1)"

text \<open>
  A tenant \<open>a\<close> with the worker \<open>b:c\<close> and a tenant \<open>a:b\<close> with the worker \<open>c\<close>;
  the hub after the manager started the workers of \<open>a:b\<close> and then those of \<open>a\<close>.
\<close>

definition colon_registry :: Registry where
  "colon_registry =
     [(''a'', \<lparr>tc_tenant_id = ''a'', tc_description = [],
               tc_servers = [(''b:c'', demo_cfg\<lparr>cfg_name := ''b:c''\<rparr>)]\<rparr>),
      (''a:b'', \<lparr>tc_tenant_id = ''a:b'', tc_description = [],
                 tc_servers = [(''c'', demo_cfg\<lparr>cfg_name := ''c''\<rparr>)]\<rparr>)]"

definition colon_hub1 :: Hub where
  "colon_hub1 =
     snd (manager_start_tenant_servers demo_world (\<lambda>sid. demo_env) 10 ''a:b'' (new_hub colon_registry))"

definition colon_hub :: Hub where
  "colon_hub = snd (manager_start_tenant_servers demo_world (\<lambda>sid. demo_env) 20 ''a'' colon_hub1)"

text \<open>
  The world of \<open>demo_world\<close>, except that every call of a tool is cancelled: the
  client's \<open>call_tool\<close> raises \<open>asyncio.CancelledError\<close>, which is a
  \<open>BaseException\<close> and not an \<open>Exception\<close>.
\<close>

definition cancel_world :: world where
  "cancel_world = (\<lambda>c.
     \<lparr>cv_is_initialized = True,
      cv_list_tools = Inr [\<lparr>ti_name = ''add'', ti_description = ''adds'', ti_input_schema = ''{}''\<rparr>],
      cv_call_tool = (\<lambda>n a t. Inl (BaseExceptionOnly ''CancelledError''))\<rparr>)"

text \<open>
  Two tenants with differently named workers: \<open>t1\<close> runs \<open>echo\<close>, \<open>t2\<close> runs
  \<open>ping\<close>; the hub after the manager started the workers of \<open>t1\<close> and then those of
  \<open>t2\<close>.
\<close>

definition pair_registry :: Registry where
  "pair_registry =
     [(''t1'', \<lparr>tc_tenant_id = ''t1'', tc_description = [],
                tc_servers = [(''echo'', demo_cfg\<lparr>cfg_name := ''echo''\<rparr>)]\<rparr>),
      (''t2'', \<lparr>tc_tenant_id = ''t2'', tc_description = [],
                tc_servers = [(''ping'', demo_cfg\<lparr>cfg_name := ''ping''\<rparr>)]\<rparr>)]"

definition pair_hub1 :: Hub where
  "pair_hub1 = snd (manager_start_tenant_servers demo_world twin_envs 10 ''t1'' (new_hub pair_registry))"

definition pair_hub :: Hub where
  "pair_hub = snd (manager_start_tenant_servers demo_world twin_envs 20 ''t2'' pair_hub1)"

section \<open>Properties of the engine\<close>

lemma notify_observers_fields:
  "notify_observers ev s = (r, s') \<Longrightarrow>
     objects s' = objects s \<and> managed_servers s' = managed_servers s \<and>
     next_addr s' = next_addr s \<and> registry s' = registry s \<and> observers s' = observers s"
  by (auto simp: notify_observers_def split: prod.splits)

subsection \<open>Every operation keeps the invariant\<close>

lemma engine_inv_notify: "notify_observers ev s = (r, s') \<Longrightarrow> engine_inv s' = engine_inv s"
  by (auto simp: engine_inv_def notify_observers_def split: prod.splits)

lemma engine_inv_upd_obj:
  "engine_inv s \<Longrightarrow> sound_record (f (objects s a)) \<Longrightarrow> engine_inv (upd_obj a f s)"
  by (simp add: engine_inv_def upd_obj_def)

lemma engine_inv_start_try:
  "start_try env sid a s = (r, s') \<Longrightarrow> engine_inv s \<Longrightarrow> engine_inv s'"
  by (auto simp: start_try_def notify_observers_def engine_inv_def upd_obj_def sound_record_def
           split: option.splits prod.splits)

lemma engine_inv_start_fresh:
  "start_fresh env sid tid cfg s = (r, s') \<Longrightarrow> engine_inv s \<Longrightarrow> engine_inv s'"
proof -
  assume run: "start_fresh env sid tid cfg s = (r, s')" and inv: "engine_inv s"
  define s1 where "s1 = s\<lparr>objects := (objects s)(next_addr s := \<lparr>server_id = sid, tenant_id = tid, config = cfg, state = STARTING,
                     client = None, started_at = None, last_error = None, restart_count = 0\<rparr>), next_addr := Suc (next_addr s),
                 managed_servers := dict_set sid (next_addr s) (managed_servers s)\<rparr>"
  have i1: "engine_inv s1" using inv by (simp add: s1_def engine_inv_def sound_record_def)
  obtain r2 s2 where n2: "notify_observers (''server_starting'', [(''server_id'', sid)]) s1 = (r2, s2)"
    by (cases "notify_observers (''server_starting'', [(''server_id'', sid)]) s1")
  have i2: "engine_inv s2" using i1 n2 by (simp add: engine_inv_notify)
  obtain r3 s3 where t3: "start_try env sid (next_addr s) s2 = (r3, s3)"
    by (cases "start_try env sid (next_addr s) s2")
  have i3: "engine_inv s3" using i2 t3 by (rule engine_inv_start_try[rotated])
  have i4: "engine_inv (upd_obj (next_addr s) (\<lambda>m. m\<lparr>state := CRASHED, last_error := Some x\<rparr>) s3)" for x
    using i3 by (simp add: engine_inv_def upd_obj_def sound_record_def)
  show ?thesis
    using run i2 i3 i4 n2 t3
    unfolding start_fresh_def Let_def s1_def[symmetric]
    by (auto simp: engine_inv_notify split: prod.splits option.splits if_splits)
qed

lemma engine_inv_start_server:
  "start_server env sid s = (r, s') \<Longrightarrow> engine_inv s \<Longrightarrow> engine_inv s'"
  by (auto simp: start_server_def split: sum.splits option.splits prod.splits
           dest: engine_inv_start_fresh)

lemma engine_inv_start_each:
  "start_each envs tid cfgs started s = (r, s') \<Longrightarrow> engine_inv s \<Longrightarrow> engine_inv s'"
proof (induction cfgs arbitrary: started s)
  case Nil
  then show ?case by simp
next
  case (Cons cfg cfgs)
  then show ?case
    by (auto split: prod.splits sum.splits if_splits dest: engine_inv_start_server)
qed

lemma engine_inv_start_tenant_servers:
  "start_tenant_servers envs tid s = (r, s') \<Longrightarrow> engine_inv s \<Longrightarrow> engine_inv s'"
  by (auto simp: start_tenant_servers_def split: option.splits dest: engine_inv_start_each)

lemma engine_inv_stop_try:
  "stop_try disc sid a s = (r, s') \<Longrightarrow> engine_inv s \<Longrightarrow> engine_inv s'"
  by (auto simp: stop_try_def notify_observers_def engine_inv_def upd_obj_def sound_record_def
           split: option.splits prod.splits if_splits)

lemma engine_inv_stop_server:
  "stop_server disc sid s = (r, s') \<Longrightarrow> engine_inv s \<Longrightarrow> engine_inv s'"
proof -
  assume run: "stop_server disc sid s = (r, s')" and inv: "engine_inv s"
  show ?thesis
  proof (cases "dict_get (managed_servers s) sid")
    case None
    with run inv show ?thesis by (simp add: stop_server_def)
  next
    case (Some a)
    show ?thesis
    proof (cases "is_stopped (objects s a)")
      case True
      with run inv Some show ?thesis by (simp add: stop_server_def)
    next
      case False
      have i1: "engine_inv (upd_obj a (\<lambda>m. m\<lparr>state := STOPPING\<rparr>) s)"
        using inv by (simp add: engine_inv_def upd_obj_def sound_record_def)
      obtain r2 s2 where n2: "notify_observers (''server_stopping'', [(''server_id'', sid)])
                    (upd_obj a (\<lambda>m. m\<lparr>state := STOPPING\<rparr>) s) = (r2, s2)"
        by (cases "notify_observers (''server_stopping'', [(''server_id'', sid)])
                    (upd_obj a (\<lambda>m. m\<lparr>state := STOPPING\<rparr>) s)")
      have i2: "engine_inv s2" using i1 n2 by (simp add: engine_inv_notify)
      obtain r3 s3 where t3: "stop_try disc sid a s2 = (r3, s3)"
        by (cases "stop_try disc sid a s2")
      have i3: "engine_inv s3" using i2 t3 by (rule engine_inv_stop_try[rotated])
      have i4: "engine_inv (upd_obj a (\<lambda>m. m\<lparr>state := CRASHED, last_error := Some x\<rparr>) s3)" for x
        using i3 by (simp add: engine_inv_def upd_obj_def sound_record_def)
      show ?thesis
        using run Some False i2 i3 i4 n2 t3
        by (auto simp: stop_server_def split: option.splits if_splits)
    qed
  qed
qed

lemma engine_inv_stop_each:
  "stop_each discs sids s = (r, s') \<Longrightarrow> engine_inv s \<Longrightarrow> engine_inv s'"
proof (induction sids arbitrary: s)
  case Nil
  then show ?case by simp
next
  case (Cons sid sids)
  then show ?case
    by (auto split: prod.splits option.splits dest: engine_inv_stop_server)
qed

lemma engine_inv_handle_server_failure:
  "handle_server_failure sid err s = (r, s') \<Longrightarrow> engine_inv s \<Longrightarrow> engine_inv s'"
  by (auto simp: handle_server_failure_def notify_observers_def engine_inv_def upd_obj_def
           sound_record_def split: option.splits prod.splits)

lemma engine_inv_check_each:
  "check_each conn ps s = (r, s') \<Longrightarrow> engine_inv s \<Longrightarrow> engine_inv s'"
proof (induction ps arbitrary: s)
  case Nil
  then show ?case by simp
next
  case (Cons p ps)
  then show ?case
    by (auto split: prod.splits option.splits if_splits dest: engine_inv_handle_server_failure)
qed

lemma engine_inv_reachable: "reachable s \<Longrightarrow> engine_inv s"
proof (induction rule: reachable.induct)
  case (r_init reg)
  show ?case by (simp add: new_orchestrator_def engine_inv_def sound_record_def blank_server_def)
next
  case (r_reload s reg)
  then show ?case by (simp add: reload_def engine_inv_def)
next
  case (r_add_observer s cb)
  then show ?case by (simp add: add_observer_def engine_inv_def split: option.splits)
next
  case (r_remove_observer s cb)
  then show ?case by (simp add: remove_observer_def engine_inv_def split: option.splits)
next
  case (r_start_server s env sid)
  then show ?case using engine_inv_start_server [OF surjective_pairing] by blast
next
  case (r_start_tenant_servers s envs tid)
  then show ?case using engine_inv_start_tenant_servers [OF surjective_pairing] by blast
next
  case (r_stop_server s disc sid)
  then show ?case using engine_inv_stop_server [OF surjective_pairing] by blast
next
  case (r_stop_tenant_servers s discs tid)
  then show ?case using engine_inv_stop_each [OF surjective_pairing]
    by (simp add: stop_tenant_servers_def)
next
  case (r_stop_all s discs)
  then show ?case using engine_inv_stop_each [OF surjective_pairing]
    by (simp add: stop_all_def)
next
  case (r_check_servers s conn)
  then show ?case using engine_inv_check_each [OF surjective_pairing]
    by (simp add: check_servers_def)
qed

subsection \<open>The example states\<close>

lemma parse_demo_id: "parse_server_id ''t:w'' = Inr (''t'', ''w'')"
  by (simp add: parse_server_id_def)

lemma demo_running_eq:
  "demo_running =
     \<lparr>registry = demo_registry, managed_servers = [(''t:w'', 0)],
      objects = (\<lambda>a. blank_server)(0 := \<lparr>server_id = ''t:w'', tenant_id = ''t'', config = demo_cfg,
          state = RUNNING, client = Some 7, started_at = Some 1000, last_error = None,
          restart_count = 0\<rparr>),
      next_addr = 1, observers = [], delivered = []\<rparr>"
  by (simp add: demo_running_def start_server_def parse_demo_id get_server_config_def get_tenant_def
      dict_get_def demo_registry_def new_orchestrator_def running_addr_def start_fresh_def
      notify_observers_def start_try_def demo_env_def upd_obj_def Let_def)

lemma demo_crashed_eq:
  "demo_crashed =
     \<lparr>registry = demo_registry, managed_servers = [(''t:w'', 0)],
      objects = (\<lambda>a. blank_server)(0 := \<lparr>server_id = ''t:w'', tenant_id = ''t'', config = demo_cfg,
          state = CRASHED, client = None, started_at = None, last_error = Some ''refused'',
          restart_count = 0\<rparr>),
      next_addr = 1, observers = [], delivered = []\<rparr>"
  by (simp add: demo_crashed_def start_server_def parse_demo_id get_server_config_def get_tenant_def
      dict_get_def demo_registry_def new_orchestrator_def running_addr_def start_fresh_def
      notify_observers_def start_try_def demo_env_def upd_obj_def Let_def is_start_failure_def)

lemma parse_twin_ids:
  "parse_server_id ''t1:echo'' = Inr (''t1'', ''echo'')"
  "parse_server_id ''t2:echo'' = Inr (''t2'', ''echo'')"
  by (simp_all add: parse_server_id_def)

lemmas eval_defs =
  manager_start_tenant_servers_def get_or_create_tenant_def check_quota_def get_quota_def
  default_quotas_def start_tenant_servers_def get_tenant_def dict_get_def get_enabled_servers_def
  dict_values_def dict_keys_def generate_server_id_def start_server_def get_server_config_def
  running_addr_def start_fresh_def notify_observers_def start_try_def upd_obj_def Let_def
  is_running_def discover_tools_def get_server_client_def generate_prefixed_name_def
  new_registration_def generate_tool_id_def get_tools_by_server_def

lemma twin_hub1_eq:
  "twin_hub1 =
     \<lparr>orch = \<lparr>registry = twin_registry, managed_servers = [(''t1:echo'', 0)],
              objects = (\<lambda>a. blank_server)
                (0 := \<lparr>server_id = ''t1:echo'', tenant_id = ''t1'',
                       config = demo_cfg\<lparr>cfg_name := ''echo''\<rparr>, state = RUNNING, client = Some 1,
                       started_at = Some 1000, last_error = None, restart_count = 0\<rparr>),
              next_addr = 1, observers = [], delivered = []\<rparr>,
      router = [(''t1:echo:add'', \<lparr>tool_id = ''t1:echo:add'', reg_server_id = ''t1:echo'',
                   original_name = ''add'', prefixed_name = ''echo.add'', description = ''adds'',
                   input_schema = ''{}''\<rparr>)],
      tenants = [(''t1'', \<lparr>ctx_tenant_id = ''t1'',
                   ctx_config = \<lparr>tc_tenant_id = ''t1'', tc_description = [],
                      tc_servers = [(''echo'', demo_cfg\<lparr>cfg_name := ''echo''\<rparr>)]\<rparr>,
                   ctx_servers = [(''t1:echo'', 0)], ctx_tools = [''echo.add''],
                   ctx_created_at = 10, ctx_last_activity = 10\<rparr>)],
      quotas = []\<rparr>"
  by (simp add: twin_hub1_def new_hub_def new_orchestrator_def twin_registry_def twin_envs_def
      demo_env_def demo_cfg_def demo_world_def parse_twin_ids eval_defs)

lemma twin_hub_contexts:
  "map_option ctx_servers (dict_get (tenants twin_hub) ''t1'') = Some [(''t1:echo'', 0)]"
  "map_option ctx_servers (dict_get (tenants twin_hub) ''t2'') = Some [(''t2:echo'', 1)]"
  "map_option ctx_tools (dict_get (tenants twin_hub) ''t1'') = Some [''echo.add'']"
  "map_option ctx_tools (dict_get (tenants twin_hub) ''t2'') = Some [''echo.add'']"
  by (simp_all add: twin_hub_def twin_hub1_eq twin_registry_def twin_envs_def
      demo_env_def demo_cfg_def demo_world_def parse_twin_ids eval_defs)

lemma twin_engine_client: "get_server_client (orch twin_hub) ''t2:echo'' = Some 2"
  by (simp add: twin_hub_def twin_hub1_eq twin_registry_def twin_envs_def
      demo_env_def demo_cfg_def demo_world_def parse_twin_ids eval_defs)

lemma twin_router1:
  "router twin_hub1 =
     [(''t1:echo:add'', \<lparr>tool_id = ''t1:echo:add'', reg_server_id = ''t1:echo'',
         original_name = ''add'', prefixed_name = ''echo.add'', description = ''adds'',
         input_schema = ''{}''\<rparr>)]"
  by (simp add: twin_hub1_eq)

subsection \<open>Starting a worker that is already running\<close>

text \<open>
  C6, as stated, fails: \<open>start_server\<close> looks the worker up in the registry before it
  looks at the worker table, so after a reload that dropped the worker's descriptor a
  start of the still running worker raises \<open>ValueError\<close> instead of returning the
  record. The state below is reachable: start \<open>t:w\<close>, then reload an empty
  configuration.
\<close>

theorem start_server_running_unconfigured_raises:
  "reachable (reload [] demo_running) \<and>
   map_option st_state (get_server_status (reload [] demo_running) ''t:w'') = Some RUNNING \<and>
   start_server demo_env ''t:w'' (reload [] demo_running)
     = (Inl (ValueError ''t:w''), reload [] demo_running)"
proof -
  have "reachable (reload [] demo_running)"
    unfolding demo_running_def by (intro r_reload r_start_server r_init)
  moreover have "map_option st_state (get_server_status (reload [] demo_running) ''t:w'') = Some RUNNING"
    by (simp add: demo_running_eq reload_def get_server_status_def dict_get_def)
  moreover have "start_server demo_env ''t:w'' (reload [] demo_running)
     = (Inl (ValueError ''t:w''), reload [] demo_running)"
    by (simp add: start_server_def parse_demo_id reload_def get_server_config_def get_tenant_def
        dict_get_def)
  ultimately show ?thesis by blast
qed

text \<open>
  C6, amended: for every worker id that parses as \<open>tenant:name\<close>, whose descriptor is
  in the registry and whose managed record is in state \<open>RUNNING\<close>, \<open>start_server\<close>
  returns that record and leaves the whole engine state as it was: no new record, no
  event, no use of the outcomes of \<open>connect\<close> and \<open>initialize\<close> (the result does not
  depend on \<open>env\<close>).
\<close>

theorem start_server_running_idempotent:
  assumes "parse_server_id sid = Inr (tid, sname)"
    and "get_server_config (registry s) tid sname = Some cfg"
    and "dict_get (managed_servers s) sid = Some a"
    and "state (objects s a) = RUNNING"
  shows "start_server env sid s = (Inr a, s)"
  using assms by (simp add: start_server_def running_addr_def is_running_def)

theorem start_server_running_idempotent_witness:
  "parse_server_id ''t:w'' = Inr (''t'', ''w'') \<and>
   get_server_config (registry demo_running) ''t'' ''w'' = Some demo_cfg \<and>
   dict_get (managed_servers demo_running) ''t:w'' = Some 0 \<and>
   state (objects demo_running 0) = RUNNING \<and>
   start_server (demo_env\<lparr>env_connect := Some (MCPConnectionError ''refused'')\<rparr>) ''t:w'' demo_running
     = (Inr 0, demo_running)"
proof -
  have h1: "parse_server_id ''t:w'' = Inr (''t'', ''w'')" by (rule parse_demo_id)
  have h2: "get_server_config (registry demo_running) ''t'' ''w'' = Some demo_cfg"
    by (simp add: demo_running_eq get_server_config_def get_tenant_def dict_get_def demo_registry_def)
  have h3: "dict_get (managed_servers demo_running) ''t:w'' = Some 0"
    by (simp add: demo_running_eq dict_get_def)
  have h4: "state (objects demo_running 0) = RUNNING"
    by (simp add: demo_running_eq)
  from start_server_running_idempotent [OF h1 h2 h3 h4] h1 h2 h3 h4 show ?thesis by blast
qed

subsection \<open>Stopping a worker that is not running\<close>

text \<open>
  C7: for every worker id that has no record in the worker table, or whose record is
  in state \<open>STOPPED\<close> or \<open>CRASHED\<close>, \<open>stop_server\<close> raises nothing and returns the
  engine state it was given: no listener is invoked, the table and every field of the
  record are unchanged, and \<open>disconnect\<close> is not used.
\<close>

theorem stop_server_noop:
  "dict_get (managed_servers s) sid = None \<or>
   (\<exists>a. dict_get (managed_servers s) sid = Some a \<and>
        (state (objects s a) = STOPPED \<or> state (objects s a) = CRASHED)) \<Longrightarrow>
   stop_server disc sid s = (None, s)"
  by (auto simp: stop_server_def is_stopped_def)

theorem stop_server_noop_witness:
  "dict_get (managed_servers demo_crashed) ''t:w'' = Some 0 \<and>
   state (objects demo_crashed 0) = CRASHED \<and>
   stop_server (Some (OtherException ''late'')) ''t:w'' demo_crashed = (None, demo_crashed) \<and>
   dict_get (managed_servers demo_crashed) ''t:x'' = None \<and>
   stop_server None ''t:x'' demo_crashed = (None, demo_crashed)"
proof -
  have h1: "dict_get (managed_servers demo_crashed) ''t:w'' = Some 0"
    by (simp add: demo_crashed_eq dict_get_def)
  have h2: "state (objects demo_crashed 0) = CRASHED"
    by (simp add: demo_crashed_eq)
  have h3: "dict_get (managed_servers demo_crashed) ''t:x'' = None"
    by (simp add: demo_crashed_eq dict_get_def)
  have "stop_server (Some (OtherException ''late'')) ''t:w'' demo_crashed = (None, demo_crashed)"
    using stop_server_noop [of demo_crashed "''t:w''"] h1 h2 by blast
  moreover have "stop_server None ''t:x'' demo_crashed = (None, demo_crashed)"
    using stop_server_noop [of demo_crashed "''t:x''"] h3 by blast
  ultimately show ?thesis using h1 h2 h3 by blast
qed

subsection \<open>Notifying listeners\<close>

text \<open>
  C8 does not hold of the code. The handler that catches a listener's exception builds
  its log line from \<open>observer.__name__\<close>; for a failing listener without that
  attribute the handler itself raises \<open>AttributeError\<close>, which leaves
  \<open>_notify_observers\<close>: the notification raises to the engine and the listener
  registered after it is never invoked. (\<open>add_observer\<close> registers such a
  listener before its own log line raises.)
\<close>

theorem notify_observers_nameless_listener_raises:
  "fst (add_observer nameless_failing (new_orchestrator demo_registry))
     = Some (AttributeError ''__name__'') \<and>
   observers (snd (add_observer quiet_listener
                (snd (add_observer nameless_failing (new_orchestrator demo_registry)))))
     = [nameless_failing, quiet_listener] \<and>
   notify_observers (''server_starting'', [(''server_id'', ''t:w'')])
     (snd (add_observer quiet_listener
        (snd (add_observer nameless_failing (new_orchestrator demo_registry)))))
   = (Some (AttributeError ''__name__''),
      (new_orchestrator demo_registry)
        \<lparr>observers := [nameless_failing, quiet_listener],
         delivered := [(1, (''server_starting'', [(''server_id'', ''t:w'')]))]\<rparr>)"
  by (simp add: add_observer_def notify_observers_def new_orchestrator_def nameless_failing_def
      quiet_listener_def)

subsection \<open>The live handle\<close>

text \<open>
  C2: in every reachable state of the engine and for every worker id,
  \<open>get_server_client\<close> returns a handle if and only if the worker has a record in
  state \<open>RUNNING\<close>, and the handle it returns is the client of that record; for an
  unmanaged worker and for one in any other state it returns nothing.
\<close>

theorem get_server_client_iff_running:
  assumes "reachable s"
  shows "((\<exists>c. get_server_client s sid = Some c) \<longleftrightarrow>
            (\<exists>a. dict_get (managed_servers s) sid = Some a \<and> state (objects s a) = RUNNING)) \<and>
         (\<forall>c. get_server_client s sid = Some c \<longrightarrow>
            (\<exists>a. dict_get (managed_servers s) sid = Some a \<and> client (objects s a) = Some c))"
proof -
  from assms have "engine_inv s" by (rule engine_inv_reachable)
  then have run: "state (objects s a) = RUNNING \<Longrightarrow> \<exists>c. client (objects s a) = Some c" for a
    by (auto simp: engine_inv_def sound_record_def)
  show ?thesis
  proof (cases "dict_get (managed_servers s) sid")
    case None
    then show ?thesis by (simp add: get_server_client_def)
  next
    case (Some a)
    then show ?thesis using run [of a]
      by (auto simp: get_server_client_def is_running_def)
  qed
qed

theorem get_server_client_iff_running_witness:
  "reachable demo_running \<and> get_server_client demo_running ''t:w'' = Some 7 \<and>
   (\<exists>a. dict_get (managed_servers demo_running) ''t:w'' = Some a \<and>
        state (objects demo_running a) = RUNNING) \<and>
   reachable demo_crashed \<and> get_server_client demo_crashed ''t:w'' = None \<and>
   \<not> (\<exists>a. dict_get (managed_servers demo_crashed) ''t:w'' = Some a \<and>
        state (objects demo_crashed a) = RUNNING)"
proof -
  have r1: "reachable demo_running"
    unfolding demo_running_def by (intro r_start_server r_init)
  have r2: "reachable demo_crashed"
    unfolding demo_crashed_def by (intro r_start_server r_init)
  have c1: "get_server_client demo_running ''t:w'' = Some 7"
    by (simp add: demo_running_eq get_server_client_def dict_get_def is_running_def)
  have c2: "get_server_client demo_crashed ''t:w'' = None"
    by (simp add: demo_crashed_eq get_server_client_def dict_get_def is_running_def)
  from get_server_client_iff_running [OF r1, of "''t:w''"] c1
  have e1: "\<exists>a. dict_get (managed_servers demo_running) ''t:w'' = Some a \<and>
        state (objects demo_running a) = RUNNING" by simp
  from get_server_client_iff_running [OF r2, of "''t:w''"] c2
  have e2: "\<not> (\<exists>a. dict_get (managed_servers demo_crashed) ''t:w'' = Some a \<and>
        state (objects demo_crashed a) = RUNNING)" by simp
  from r1 r2 c1 c2 e1 e2 show ?thesis by blast
qed

subsection \<open>The restart counter\<close>

text \<open>
  C10: in every reachable state of the engine the restart counter of every managed
  record is 0, so the status snapshot of every managed worker reports
  \<open>restart_count\<close> 0. (No operation writes the field; a start that does not find the
  worker running installs a new record, whose counter is 0.)
\<close>

theorem restart_count_always_zero:
  assumes "reachable s" and "dict_get (managed_servers s) sid = Some a"
  shows "restart_count (objects s a) = 0 \<and>
         map_option st_restart_count (get_server_status s sid) = Some 0"
proof -
  from assms(1) have "engine_inv s" by (rule engine_inv_reachable)
  then have "restart_count (objects s a) = 0"
    by (simp add: engine_inv_def sound_record_def)
  with assms(2) show ?thesis by (simp add: get_server_status_def)
qed

theorem restart_count_always_zero_witness:
  "reachable (snd (start_server demo_env ''t:w'' demo_crashed)) \<and>
   dict_get (managed_servers (snd (start_server demo_env ''t:w'' demo_crashed))) ''t:w'' = Some 1 \<and>
   restart_count (objects (snd (start_server demo_env ''t:w'' demo_crashed)) 1) = 0 \<and>
   map_option st_restart_count
     (get_server_status (snd (start_server demo_env ''t:w'' demo_crashed)) ''t:w'') = Some 0"
proof -
  have r: "reachable (snd (start_server demo_env ''t:w'' demo_crashed))"
    unfolding demo_crashed_def by (intro r_start_server r_init)
  have d: "dict_get (managed_servers (snd (start_server demo_env ''t:w'' demo_crashed))) ''t:w'' = Some 1"
    by (simp add: demo_crashed_eq start_server_def parse_demo_id get_server_config_def get_tenant_def
        dict_get_def demo_registry_def running_addr_def start_fresh_def is_running_def
        notify_observers_def start_try_def demo_env_def upd_obj_def Let_def)
  from restart_count_always_zero [OF r d] r d show ?thesis by blast
qed

section \<open>Properties of the router\<close>

subsection \<open>Dictionary and loop lemmas\<close>

lemma dict_set_mem: "(k, v) \<in> set (dict_set k v d)"
  by (induction d) auto

lemma dict_set_other: "(k', r) \<in> set d \<Longrightarrow> k' \<noteq> k \<Longrightarrow> (k', r) \<in> set (dict_set k v d)"
  by (induction d) auto

lemma dict_set_origin: "p \<in> set (dict_set k v d) \<Longrightarrow> p = (k, v) \<or> p \<in> set d"
  by (induction d) (auto split: if_splits)

lemma dict_set_keeps_key:
  "(k', r) \<in> set d \<Longrightarrow> \<exists>r'. (k', r') \<in> set (dict_set k v d) \<and> (r' = r \<or> (k' = k \<and> r' = v))"
  by (cases "k' = k") (auto intro: dict_set_mem dict_set_other)

lemma generate_prefixed_name_parsed:
  "parse_server_id sid = Inr (tid, S) \<Longrightarrow> generate_prefixed_name sid n = Inr (S @ ''.'' @ n)"
  by (simp add: generate_prefixed_name_def)

lemma register_each_succeeds:
  "parse_server_id sid = Inr (tid, S) \<Longrightarrow>
   \<exists>regs cat'. register_each sid tis disc cat = (Inr regs, cat')"
  by (induction tis arbitrary: disc cat) (simp_all add: generate_prefixed_name_parsed)

lemma register_each_origin:
  "register_each sid tis disc cat = (r, cat') \<Longrightarrow> parse_server_id sid = Inr (tid, S) \<Longrightarrow>
   p \<in> set cat' \<Longrightarrow>
   p \<in> set cat \<or> (\<exists>t\<in>set tis. snd p = new_registration sid (S @ ''.'' @ ti_name t) t)"
proof (induction tis arbitrary: disc cat)
  case Nil
  then show ?case by simp
next
  case (Cons t ts)
  from Cons.prems have run: "register_each sid ts (disc @ [new_registration sid (S @ ''.'' @ ti_name t) t])
          (dict_set (generate_tool_id sid (ti_name t)) (new_registration sid (S @ ''.'' @ ti_name t) t) cat) = (r, cat')"
    by (simp add: generate_prefixed_name_parsed)
  from Cons.IH [OF run Cons.prems(2) Cons.prems(3)]
  show ?case using dict_set_origin by fastforce
qed

lemma register_each_keeps:
  "register_each sid tis disc cat = (r, cat') \<Longrightarrow> parse_server_id sid = Inr (tid, S) \<Longrightarrow>
   (k, reg) \<in> set cat \<Longrightarrow> G reg \<Longrightarrow>
   (\<forall>t\<in>set tis. generate_tool_id sid (ti_name t) = k \<longrightarrow>
        G (new_registration sid (S @ ''.'' @ ti_name t) t)) \<Longrightarrow>
   \<exists>reg'. (k, reg') \<in> set cat' \<and> G reg'"
proof (induction tis arbitrary: disc cat reg)
  case Nil
  then show ?case by auto
next
  case (Cons t ts)
  let ?k = "generate_tool_id sid (ti_name t)"
  let ?v = "new_registration sid (S @ ''.'' @ ti_name t) t"
  from Cons.prems have run: "register_each sid ts (disc @ [?v]) (dict_set ?k ?v cat) = (r, cat')"
    by (simp add: generate_prefixed_name_parsed)
  from dict_set_keeps_key [OF Cons.prems(3), of ?k ?v]
  obtain r' where r': "(k, r') \<in> set (dict_set ?k ?v cat)" "r' = reg \<or> (k = ?k \<and> r' = ?v)"
    by blast
  have "G r'" using r'(2) Cons.prems(4,5) by auto
  from Cons.IH [OF run Cons.prems(2) r'(1) this] Cons.prems(5)
  show ?case by simp
qed

lemma generate_tool_id_inj: "generate_tool_id sid a = generate_tool_id sid b \<Longrightarrow> a = b"
  by (simp add: generate_tool_id_def)

lemma register_each_present:
  "register_each sid tis disc cat = (r, cat') \<Longrightarrow> parse_server_id sid = Inr (tid, S) \<Longrightarrow>
   ti \<in> set tis \<Longrightarrow>
   \<exists>reg. (generate_tool_id sid (ti_name ti), reg) \<in> set cat' \<and>
      original_name reg = ti_name ti \<and> reg_server_id reg = sid \<and>
      prefixed_name reg = S @ ''.'' @ ti_name ti"
proof (induction tis arbitrary: disc cat)
  case Nil
  then show ?case by simp
next
  case (Cons t ts)
  let ?k = "generate_tool_id sid (ti_name t)"
  let ?v = "new_registration sid (S @ ''.'' @ ti_name t) t"
  let ?G = "\<lambda>reg. original_name reg = ti_name ti \<and> reg_server_id reg = sid \<and>
      prefixed_name reg = S @ ''.'' @ ti_name ti"
  from Cons.prems have run: "register_each sid ts (disc @ [?v]) (dict_set ?k ?v cat) = (r, cat')"
    by (simp add: generate_prefixed_name_parsed)
  show ?case
  proof (cases "ti \<in> set ts")
    case True
    from Cons.IH [OF run Cons.prems(2) True] show ?thesis .
  next
    case False
    with Cons.prems(3) have eq: "ti = t" by simp
    have m: "(?k, ?v) \<in> set (dict_set ?k ?v cat)" by (rule dict_set_mem)
    have g: "?G ?v" by (simp add: eq new_registration_def)
    have all: "\<forall>t'\<in>set ts. generate_tool_id sid (ti_name t') = ?k \<longrightarrow>
        ?G (new_registration sid (S @ ''.'' @ ti_name t') t')"
      by (auto simp: eq new_registration_def dest: generate_tool_id_inj)
    from register_each_keeps [where G = ?G, OF run Cons.prems(2) m g all]
    show ?thesis by (simp add: eq)
  qed
qed

lemma find_in_set: "find P xs = Some x \<Longrightarrow> x \<in> set xs \<and> P x"
  by (induction xs) (auto split: if_splits)

lemma find_exists: "x \<in> set xs \<Longrightarrow> P x \<Longrightarrow> \<exists>y. find P xs = Some y"
  by (induction xs) auto

lemma find_first_split:
  "find P xs = Some x \<Longrightarrow>
   \<exists>pre post. xs = pre @ x # post \<and> (\<forall>r \<in> set pre. \<not> P r) \<and> P x"
proof (induction xs)
  case Nil
  then show ?case by simp
next
  case (Cons y ys)
  show ?case
  proof (cases "P y")
    case True
    with Cons.prems have "x = y" by simp
    with True have "y # ys = [] @ x # ys \<and> (\<forall>r \<in> set []. \<not> P r) \<and> P x" by simp
    then show ?thesis by blast
  next
    case False
    with Cons.prems have "find P ys = Some x" by simp
    from Cons.IH [OF this] obtain pre post where
      "ys = pre @ x # post" "\<forall>r \<in> set pre. \<not> P r" "P x" by blast
    with False have "y # ys = (y # pre) @ x # post \<and> (\<forall>r \<in> set (y # pre). \<not> P r) \<and> P x"
      by simp
    then show ?thesis by blast
  qed
qed

lemma find_of_split:
  "xs = pre @ x # post \<Longrightarrow> (\<forall>r \<in> set pre. \<not> P r) \<Longrightarrow> P x \<Longrightarrow> find P xs = Some x"
  by (induction pre arbitrary: xs) auto

lemma new_registration_fields:
  "original_name (new_registration sid pn t) = ti_name t"
  "reg_server_id (new_registration sid pn t) = sid"
  "prefixed_name (new_registration sid pn t) = pn"
  by (simp_all add: new_registration_def)

lemma demo_catalog_eq:
  "demo_catalog = [(''t:w:add'', \<lparr>tool_id = ''t:w:add'', reg_server_id = ''t:w'',
      original_name = ''add'', prefixed_name = ''w.add'', description = ''adds'', input_schema = ''{}''\<rparr>)]"
  by (simp add: demo_catalog_def discover_tools_def get_server_client_def demo_running_eq dict_get_def
      is_running_def demo_world_def generate_prefixed_name_def parse_demo_id new_registration_def
      generate_tool_id_def)

lemma parse_collide_ids:
  "parse_server_id ''t:a'' = Inr (''t'', ''a'')"
  "parse_server_id ''t:a.b'' = Inr (''t'', ''a.b'')"
  by (simp_all add: parse_server_id_def)

lemma collide_engine_eq:
  "collide_engine =
     \<lparr>registry = collide_registry, managed_servers = [(''t:a'', 0), (''t:a.b'', 1)],
      objects = (\<lambda>a. blank_server)
        (0 := \<lparr>server_id = ''t:a'', tenant_id = ''t'', config = demo_cfg\<lparr>cfg_name := ''a''\<rparr>,
               state = RUNNING, client = Some 1, started_at = Some 1000, last_error = None,
               restart_count = 0\<rparr>,
         1 := \<lparr>server_id = ''t:a.b'', tenant_id = ''t'', config = demo_cfg\<lparr>cfg_name := ''a.b''\<rparr>,
               state = RUNNING, client = Some 2, started_at = Some 1000, last_error = None,
               restart_count = 0\<rparr>),
      next_addr = 2, observers = [], delivered = []\<rparr>"
  by (simp add: collide_engine_def start_tenant_servers_def get_tenant_def dict_get_def
      collide_registry_def get_enabled_servers_def dict_values_def demo_cfg_def generate_server_id_def
      start_server_def parse_collide_ids get_server_config_def new_orchestrator_def running_addr_def
      start_fresh_def notify_observers_def start_try_def demo_env_def collide_envs_def upd_obj_def
      Let_def is_running_def)

lemma collide_catalog_eq:
  "collide_catalog =
     [(''t:a:b.c'', \<lparr>tool_id = ''t:a:b.c'', reg_server_id = ''t:a'', original_name = ''b.c'',
                     prefixed_name = ''a.b.c'', description = [], input_schema = []\<rparr>),
      (''t:a.b:c'', \<lparr>tool_id = ''t:a.b:c'', reg_server_id = ''t:a.b'', original_name = ''c'',
                     prefixed_name = ''a.b.c'', description = [], input_schema = []\<rparr>)]"
  by (simp add: collide_catalog_def discover_tools_def get_server_client_def collide_engine_eq
      dict_get_def is_running_def collide_world_def generate_prefixed_name_def parse_collide_ids
      new_registration_def generate_tool_id_def)

subsection \<open>Discovery and lookup by dotted name\<close>

text \<open>
  C1, as stated, fails where two catalog entries share a dotted name: lookup returns
  the first. Worker \<open>t:a.b\<close> has short name \<open>a.b\<close> and exposes \<open>c\<close>; after its
  discovery the catalog does contain the dotted name \<open>a.b.c\<close>, but \<open>get_tool\<close> of
  \<open>a.b.c\<close> returns the entry of worker \<open>t:a\<close> for its operation \<open>b.c\<close>, which
  was registered before.
\<close>

theorem get_tool_returns_other_worker:
  "reachable collide_engine \<and>
   parse_server_id ''t:a.b'' = Inr (''t'', ''a.b'') \<and>
   get_server_client collide_engine ''t:a.b'' = Some 2 \<and>
   cv_list_tools (collide_world 2) = Inr [\<lparr>ti_name = ''c'', ti_description = [], ti_input_schema = []\<rparr>] \<and>
   map_option original_name (get_tool collide_catalog (''a.b'' @ ''.'' @ ''c'')) = Some ''b.c'' \<and>
   map_option reg_server_id (get_tool collide_catalog (''a.b'' @ ''.'' @ ''c'')) = Some ''t:a''"
proof -
  have "reachable collide_engine"
    unfolding collide_engine_def by (intro r_start_tenant_servers r_init)
  then show ?thesis
    by (simp add: parse_collide_ids collide_catalog_eq get_tool_def dict_values_def
        get_server_client_def collide_engine_eq dict_get_def is_running_def collide_world_def)
qed

text \<open>
  C1, amended: let the worker id parse as \<open>tenant:S\<close>, let the engine hand out a live,
  initialised client for it, and let that client list the operation \<open>O\<close> (the name of
  \<open>ti\<close>). Then \<open>discover_tools\<close> succeeds and the catalog afterwards has an entry
  with dotted name exactly \<open>S.O\<close>. \<open>get_tool\<close> of \<open>S.O\<close> returns the first
  registration in catalog order that has this dotted name; it is an entry that was in
  the catalog before, or the worker's own registration for \<open>O\<close>. Its original name
  is \<open>O\<close> and the short name of its server id is \<open>S\<close> provided every entry that
  carried the dotted name \<open>S.O\<close> before the discovery has original name \<open>O\<close> and a
  server id with short name \<open>S\<close> (so also when a worker of the same short name under
  another tenant registered \<open>O\<close> before, and when there was no such entry).
\<close>

theorem discover_tools_registers_dotted_names:
  assumes client: "get_server_client s sid = Some c"
    and init: "cv_is_initialized (w c)"
    and listed: "cv_list_tools (w c) = Inr tis"
    and parsed: "parse_server_id sid = Inr (tid, S)"
    and exposed: "ti \<in> set tis"
  shows "\<exists>regs cat'. discover_tools w s sid cat = (Inr regs, cat') \<and>
     (\<exists>reg \<in> set (dict_values cat'). prefixed_name reg = S @ ''.'' @ ti_name ti) \<and>
     (\<exists>pre reg post.
         dict_values cat' = pre @ reg # post \<and>
         (\<forall>r \<in> set pre. prefixed_name r \<noteq> S @ ''.'' @ ti_name ti) \<and>
         prefixed_name reg = S @ ''.'' @ ti_name ti \<and>
         get_tool cat' (S @ ''.'' @ ti_name ti) = Some reg \<and>
         (reg \<in> set (dict_values cat) \<or> (original_name reg = ti_name ti \<and> reg_server_id reg = sid)) \<and>
         ((\<forall>old \<in> set (dict_values cat). prefixed_name old = S @ ''.'' @ ti_name ti \<longrightarrow>
              original_name old = ti_name ti \<and>
              (\<exists>T. parse_server_id (reg_server_id old) = Inr (T, S))) \<longrightarrow>
          original_name reg = ti_name ti \<and>
          (\<exists>T. parse_server_id (reg_server_id reg) = Inr (T, S))))"
proof -
  let ?d = "S @ ''.'' @ ti_name ti"
  obtain regs cat' where run: "register_each sid tis [] cat = (Inr regs, cat')"
    using register_each_succeeds [OF parsed] by blast
  have disc: "discover_tools w s sid cat = (Inr regs, cat')"
    using client init listed run by (simp add: discover_tools_def)
  from register_each_present [OF run parsed exposed]
  obtain r0 where r0: "(generate_tool_id sid (ti_name ti), r0) \<in> set cat'" "prefixed_name r0 = ?d"
    by blast
  then have in_values: "r0 \<in> set (dict_values cat')"
    by (force simp: dict_values_def)
  from find_exists [of r0 "dict_values cat'" "\<lambda>reg. prefixed_name reg = ?d"] in_values r0(2)
  obtain reg where found: "get_tool cat' ?d = Some reg"
    by (auto simp: get_tool_def)
  then have "find (\<lambda>reg. prefixed_name reg = ?d) (dict_values cat') = Some reg"
    by (simp add: get_tool_def)
  from find_first_split [OF this] obtain pre post where
    split: "dict_values cat' = pre @ reg # post" "\<forall>r \<in> set pre. prefixed_name r \<noteq> ?d"
      "prefixed_name reg = ?d"
    by blast
  from split(1) have "reg \<in> set (dict_values cat')" by simp
  then obtain k where k: "(k, reg) \<in> set cat'"
    by (auto simp: dict_values_def)
  from register_each_origin [OF run parsed k]
  have origin: "reg \<in> set (dict_values cat) \<or>
      (\<exists>t\<in>set tis. reg = new_registration sid (S @ ''.'' @ ti_name t) t)"
    by (force simp: dict_values_def)
  have own: "original_name reg = ti_name ti \<and> reg_server_id reg = sid"
    if "reg = new_registration sid (S @ ''.'' @ ti_name t) t" for t
    using that split(3) by (simp add: new_registration_fields)
  from origin own
  have or: "reg \<in> set (dict_values cat) \<or> (original_name reg = ti_name ti \<and> reg_server_id reg = sid)"
    by blast
  have guarded: "original_name reg = ti_name ti \<and> (\<exists>T. parse_server_id (reg_server_id reg) = Inr (T, S))"
    if old: "\<forall>old \<in> set (dict_values cat). prefixed_name old = ?d \<longrightarrow>
              original_name old = ti_name ti \<and>
              (\<exists>T. parse_server_id (reg_server_id old) = Inr (T, S))"
    using or
  proof
    assume "reg \<in> set (dict_values cat)"
    with old split(3) show ?thesis by blast
  next
    assume "original_name reg = ti_name ti \<and> reg_server_id reg = sid"
    with parsed show ?thesis by auto
  qed
  from disc in_values r0(2) split found or guarded show ?thesis by blast
qed

theorem discover_tools_registers_dotted_names_witness:
  "get_server_client (orch twin_hub) ''t2:echo'' = Some 2 \<and>
   cv_is_initialized (demo_world 2) \<and>
   cv_list_tools (demo_world 2) =
     Inr [\<lparr>ti_name = ''add'', ti_description = ''adds'', ti_input_schema = ''{}''\<rparr>] \<and>
   parse_server_id ''t2:echo'' = Inr (''t2'', ''echo'') \<and>
   map prefixed_name (dict_values (router twin_hub1)) = [''echo.add''] \<and>
   map reg_server_id (dict_values (router twin_hub1)) = [''t1:echo''] \<and>
   (\<exists>regs cat'. discover_tools demo_world (orch twin_hub) ''t2:echo'' (router twin_hub1) = (Inr regs, cat') \<and>
      (\<exists>reg \<in> set (dict_values cat'). prefixed_name reg = ''echo.add'') \<and>
      (\<exists>reg. get_tool cat' ''echo.add'' = Some reg \<and> original_name reg = ''add'' \<and>
          (\<exists>T. parse_server_id (reg_server_id reg) = Inr (T, ''echo''))))"
proof -
  let ?ti = "\<lparr>ti_name = ''add'', ti_description = ''adds'', ti_input_schema = ''{}''\<rparr>"
  have h1: "get_server_client (orch twin_hub) ''t2:echo'' = Some 2" by (rule twin_engine_client)
  have h2: "cv_is_initialized (demo_world 2)" by (simp add: demo_world_def)
  have h3: "cv_list_tools (demo_world 2) = Inr [?ti]" by (simp add: demo_world_def)
  have h4: "parse_server_id ''t2:echo'' = Inr (''t2'', ''echo'')" by (rule parse_twin_ids)
  have h5: "?ti \<in> set [?ti]" by simp
  have names: "map prefixed_name (dict_values (router twin_hub1)) = [''echo.add'']"
    "map reg_server_id (dict_values (router twin_hub1)) = [''t1:echo'']"
    by (simp_all add: twin_router1 dict_values_def)
  have guard: "\<forall>old \<in> set (dict_values (router twin_hub1)).
      prefixed_name old = ''echo'' @ ''.'' @ ti_name ?ti \<longrightarrow>
      original_name old = ti_name ?ti \<and>
      (\<exists>T. parse_server_id (reg_server_id old) = Inr (T, ''echo''))"
    by (simp add: twin_router1 dict_values_def parse_twin_ids)
  from discover_tools_registers_dotted_names
         [where w = demo_world and c = 2 and cat = "router twin_hub1", OF h1 h2 h3 h4 h5] guard
  have "\<exists>regs cat'. discover_tools demo_world (orch twin_hub) ''t2:echo'' (router twin_hub1) = (Inr regs, cat') \<and>
      (\<exists>reg \<in> set (dict_values cat'). prefixed_name reg = ''echo.add'') \<and>
      (\<exists>reg. get_tool cat' ''echo.add'' = Some reg \<and> original_name reg = ''add'' \<and>
          (\<exists>T. parse_server_id (reg_server_id reg) = Inr (T, ''echo'')))"
    by (auto simp: dict_values_def)
  with h1 h2 h3 h4 names show ?thesis by blast
qed

subsection \<open>Failures of a routed call\<close>

lemma call_tool_found:
  "find (\<lambda>reg. prefixed_name reg = d) (dict_values cat) = Some reg \<Longrightarrow>
   call_tool w s cat d args tmo =
     (case get_server_client s (reg_server_id reg) of
        None \<Rightarrow> Inl (ServerNotAvailableError (reg_server_id reg))
      | Some c \<Rightarrow>
         (case cv_call_tool (w c) (original_name reg) args tmo of
            Inr result \<Rightarrow> Inr result
          | Inl e \<Rightarrow>
             (case e of
                MCPToolCallError m \<Rightarrow> Inl e
              | _ \<Rightarrow> if is_Exception e then Inl (RouterError (str_exn e)) else Inl e)))"
  by (simp add: call_tool_def)

text \<open>
  C5, as stated, fails in its last part: \<open>call_tool\<close> wraps what \<open>except Exception\<close>
  catches. A failure of the worker's call that is a \<open>BaseException\<close> only, such as
  the \<open>asyncio.CancelledError\<close> of a cancelled call, reaches the caller as it is, not
  as a \<open>RouterError\<close>.
\<close>

theorem call_tool_passes_cancellation:
  "map prefixed_name (dict_values demo_catalog) = [''w.add''] \<and>
   map reg_server_id (dict_values demo_catalog) = [''t:w''] \<and>
   get_server_client demo_running ''t:w'' = Some 7 \<and>
   cv_call_tool (cancel_world 7) ''add'' ''{}'' None = Inl (BaseExceptionOnly ''CancelledError'') \<and>
   call_tool cancel_world demo_running demo_catalog ''w.add'' ''{}'' None
     = Inl (BaseExceptionOnly ''CancelledError'')"
  by (simp add: demo_catalog_eq dict_values_def get_server_client_def demo_running_eq dict_get_def
      is_running_def cancel_world_def call_tool_def)

text \<open>
  C5, amended: \<open>call_tool\<close> fails with \<open>ToolNotFoundError\<close> if and only if no
  catalog entry has the dotted name. Otherwise let \<open>reg\<close> be the first entry in
  catalog order with that dotted name. If the worker of \<open>reg\<close> is not in state
  \<open>RUNNING\<close>, the call fails with \<open>ServerNotAvailableError\<close>. If the worker's call
  fails with \<open>MCPToolCallError\<close>, that failure reaches the caller unchanged; if it
  fails with any other \<open>Exception\<close>, the caller gets a \<open>RouterError\<close> carrying its
  text; if it fails with a \<open>BaseException\<close> that is not an \<open>Exception\<close>, that
  failure reaches the caller unchanged.
\<close>

theorem call_tool_failures:
  "((\<exists>m. call_tool w s cat d args tmo = Inl (ToolNotFoundError m)) \<longleftrightarrow>
       (\<forall>reg \<in> set (dict_values cat). prefixed_name reg \<noteq> d)) \<and>
   (\<forall>pre reg post.
       dict_values cat = pre @ reg # post \<and> (\<forall>r \<in> set pre. prefixed_name r \<noteq> d) \<and>
       prefixed_name reg = d \<longrightarrow>
       (map_option st_state (get_server_status s (reg_server_id reg)) \<noteq> Some RUNNING \<longrightarrow>
          call_tool w s cat d args tmo = Inl (ServerNotAvailableError (reg_server_id reg))) \<and>
       (\<forall>c e. get_server_client s (reg_server_id reg) = Some c \<and>
          cv_call_tool (w c) (original_name reg) args tmo = Inl e \<longrightarrow>
          ((\<exists>m. e = MCPToolCallError m) \<longrightarrow> call_tool w s cat d args tmo = Inl e) \<and>
          (is_Exception e \<and> (\<forall>m. e \<noteq> MCPToolCallError m) \<longrightarrow>
             call_tool w s cat d args tmo = Inl (RouterError (str_exn e))) \<and>
          (\<not> is_Exception e \<longrightarrow> call_tool w s cat d args tmo = Inl e)))"
proof -
  have missing: "(\<exists>m. call_tool w s cat d args tmo = Inl (ToolNotFoundError m)) \<longleftrightarrow>
       (\<forall>reg \<in> set (dict_values cat). prefixed_name reg \<noteq> d)"
  proof (cases "find (\<lambda>reg. prefixed_name reg = d) (dict_values cat)")
    case None
    then have "call_tool w s cat d args tmo = Inl (ToolNotFoundError d)"
      by (simp add: call_tool_def)
    moreover from None have "\<forall>reg \<in> set (dict_values cat). prefixed_name reg \<noteq> d"
      by (auto simp: find_None_iff)
    ultimately show ?thesis by blast
  next
    case (Some reg)
    then have ex: "\<exists>r \<in> set (dict_values cat). prefixed_name r = d"
      by (auto simp: find_Some_iff)
    have fw: "(case e of MCPToolCallError x \<Rightarrow> Inl e
           | _ \<Rightarrow> if is_Exception e then Inl (RouterError (str_exn e)) else Inl e)
         \<noteq> (Inl (ToolNotFoundError m) :: exn + string)" for e m
      by (cases e) simp_all
    have "call_tool w s cat d args tmo \<noteq> Inl (ToolNotFoundError m)" for m
      using fw by (simp add: call_tool_found [OF Some] split: option.splits sum.splits)
    with ex show ?thesis by blast
  qed
  have first: "(map_option st_state (get_server_status s (reg_server_id reg)) \<noteq> Some RUNNING \<longrightarrow>
          call_tool w s cat d args tmo = Inl (ServerNotAvailableError (reg_server_id reg))) \<and>
       (\<forall>c e. get_server_client s (reg_server_id reg) = Some c \<and>
          cv_call_tool (w c) (original_name reg) args tmo = Inl e \<longrightarrow>
          ((\<exists>m. e = MCPToolCallError m) \<longrightarrow> call_tool w s cat d args tmo = Inl e) \<and>
          (is_Exception e \<and> (\<forall>m. e \<noteq> MCPToolCallError m) \<longrightarrow>
             call_tool w s cat d args tmo = Inl (RouterError (str_exn e))) \<and>
          (\<not> is_Exception e \<longrightarrow> call_tool w s cat d args tmo = Inl e))"
    if split: "dict_values cat = pre @ reg # post" "\<forall>r \<in> set pre. prefixed_name r \<noteq> d"
      "prefixed_name reg = d" for pre reg post
  proof -
    have found: "find (\<lambda>reg. prefixed_name reg = d) (dict_values cat) = Some reg"
      using split by (intro find_of_split [where pre = pre and post = post]) auto
    note eq = call_tool_found [OF found, of w s args tmo]
    have down: "call_tool w s cat d args tmo = Inl (ServerNotAvailableError (reg_server_id reg))"
      if "map_option st_state (get_server_status s (reg_server_id reg)) \<noteq> Some RUNNING"
      using that
      by (auto simp: eq get_server_client_def get_server_status_def is_running_def
          split: option.splits)
    have fails: "((\<exists>m. e = MCPToolCallError m) \<longrightarrow> call_tool w s cat d args tmo = Inl e) \<and>
          (is_Exception e \<and> (\<forall>m. e \<noteq> MCPToolCallError m) \<longrightarrow>
             call_tool w s cat d args tmo = Inl (RouterError (str_exn e))) \<and>
          (\<not> is_Exception e \<longrightarrow> call_tool w s cat d args tmo = Inl e)"
      if "get_server_client s (reg_server_id reg) = Some c"
        "cv_call_tool (w c) (original_name reg) args tmo = Inl e" for c e
      using that by (cases e) (simp_all add: eq)
    from down fails show ?thesis by blast
  qed
  from missing first show ?thesis by blast
qed

theorem call_tool_failures_witness:
  "map prefixed_name (dict_values demo_catalog) = [''w.add''] \<and>
   map reg_server_id (dict_values demo_catalog) = [''t:w''] \<and>
   map original_name (dict_values demo_catalog) = [''add''] \<and>
   (\<exists>m. call_tool demo_world demo_running demo_catalog ''w.sub'' ''{}'' None = Inl (ToolNotFoundError m)) \<and>
   map_option st_state (get_server_status demo_crashed ''t:w'') = Some CRASHED \<and>
   call_tool demo_world demo_crashed demo_catalog ''w.add'' ''{}'' None
     = Inl (ServerNotAvailableError ''t:w'') \<and>
   get_server_client demo_running ''t:w'' = Some 7 \<and>
   cv_call_tool (demo_world 7) ''add'' ''bad'' None = Inl (MCPToolCallError ''failed'') \<and>
   call_tool demo_world demo_running demo_catalog ''w.add'' ''bad'' None
     = Inl (MCPToolCallError ''failed'') \<and>
   cv_call_tool (demo_world_closed 7) ''add'' ''{}'' (Some 5) = Inl (MCPConnectionError ''closed'') \<and>
   call_tool demo_world_closed demo_running demo_catalog ''w.add'' ''{}'' (Some 5)
     = Inl (RouterError ''closed'') \<and>
   cv_call_tool (cancel_world 7) ''add'' ''{}'' None = Inl (BaseExceptionOnly ''CancelledError'') \<and>
   call_tool cancel_world demo_running demo_catalog ''w.add'' ''{}'' None
     = Inl (BaseExceptionOnly ''CancelledError'')"
proof -
  let ?reg = "\<lparr>tool_id = ''t:w:add'', reg_server_id = ''t:w'',
      original_name = ''add'', prefixed_name = ''w.add'', description = ''adds'', input_schema = ''{}''\<rparr>"
  have none: "\<forall>reg \<in> set (dict_values demo_catalog). prefixed_name reg \<noteq> ''w.sub''"
    by (simp add: demo_catalog_eq dict_values_def)
  have vals: "dict_values demo_catalog = [] @ ?reg # []"
    by (simp add: demo_catalog_eq dict_values_def)
  have first: "dict_values demo_catalog = [] @ ?reg # [] \<and>
      (\<forall>r \<in> set []. prefixed_name r \<noteq> ''w.add'') \<and> prefixed_name ?reg = ''w.add''"
    using vals by simp
  have crashed: "map_option st_state (get_server_status demo_crashed ''t:w'') = Some CRASHED"
    by (simp add: demo_crashed_eq get_server_status_def dict_get_def)
  have live: "get_server_client demo_running ''t:w'' = Some 7"
    by (simp add: demo_running_eq get_server_client_def dict_get_def is_running_def)
  have bad: "cv_call_tool (demo_world 7) ''add'' ''bad'' None = Inl (MCPToolCallError ''failed'')"
    by (simp add: demo_world_def)
  have closed: "cv_call_tool (demo_world_closed 7) ''add'' ''{}'' (Some 5) = Inl (MCPConnectionError ''closed'')"
    by (simp add: demo_world_closed_def)
  have cancelled: "cv_call_tool (cancel_world 7) ''add'' ''{}'' None = Inl (BaseExceptionOnly ''CancelledError'')"
    by (simp add: cancel_world_def)
  have p1: "\<exists>m. call_tool demo_world demo_running demo_catalog ''w.sub'' ''{}'' None = Inl (ToolNotFoundError m)"
    using call_tool_failures [of demo_world demo_running demo_catalog "''w.sub''" "''{}''" None] none
    by blast
  have p2: "call_tool demo_world demo_crashed demo_catalog ''w.add'' ''{}'' None
     = Inl (ServerNotAvailableError ''t:w'')"
    using call_tool_failures [of demo_world demo_crashed demo_catalog "''w.add''" "''{}''" None]
      first crashed by force
  have p3: "call_tool demo_world demo_running demo_catalog ''w.add'' ''bad'' None
     = Inl (MCPToolCallError ''failed'')"
    using call_tool_failures [of demo_world demo_running demo_catalog "''w.add''" "''bad''" None]
      first live bad by force
  have p4: "call_tool demo_world_closed demo_running demo_catalog ''w.add'' ''{}'' (Some 5)
     = Inl (RouterError ''closed'')"
    using call_tool_failures [of demo_world_closed demo_running demo_catalog "''w.add''" "''{}''" "Some 5"]
      first live closed by force
  have p5: "call_tool cancel_world demo_running demo_catalog ''w.add'' ''{}'' None
     = Inl (BaseExceptionOnly ''CancelledError'')"
    using call_tool_failures [of cancel_world demo_running demo_catalog "''w.add''" "''{}''" None]
      first live cancelled by force
  from p1 crashed p2 live bad p3 closed p4 cancelled p5 show ?thesis
    by (simp add: demo_catalog_eq dict_values_def)
qed

section \<open>Properties of the tenant layer\<close>

lemma demo_hub_eq:
  "demo_hub =
     \<lparr>orch = new_orchestrator demo_registry, router = [],
      tenants = [(''t'', \<lparr>ctx_tenant_id = ''t'',
                          ctx_config = \<lparr>tc_tenant_id = ''t'', tc_description = [],
                                         tc_servers = [(''w'', demo_cfg)]\<rparr>,
                          ctx_servers = [], ctx_tools = [], ctx_created_at = 0,
                          ctx_last_activity = 0\<rparr>)],
      quotas = []\<rparr>"
  by (simp add: demo_hub_def get_or_create_tenant_def new_hub_def dict_get_def get_tenant_def
      new_orchestrator_def demo_registry_def)

subsection \<open>The worker quota\<close>

text \<open>
  C3, as stated, fails for a tenant without a context: \<open>check_quota\<close> returns
  \<open>True\<close> at once, before it reads the limit. With the limit of tenant \<open>t\<close> set to
  0 and no context for \<open>t\<close>, the tracked count 0 is at the limit, and nothing is
  raised.
\<close>

theorem check_quota_without_context_passes:
  "dict_get (tenants (set_quota ''t'' ''max_servers'' 0 (new_hub demo_registry))) ''t'' = None \<and>
   get_quota (set_quota ''t'' ''max_servers'' 0 (new_hub demo_registry)) ''t'' ''max_servers'' = Finite 0 \<and>
   check_quota (set_quota ''t'' ''max_servers'' 0 (new_hub demo_registry)) ''t'' ''max_servers'' = Inr True"
  by (simp add: set_quota_def new_hub_def dict_get_def get_quota_def check_quota_def)

text \<open>
  C3, amended: for a tenant that has a context, \<open>check_quota\<close> with
  \<open>max_servers\<close> raises \<open>QuotaExceededError\<close> if and only if the number of
  workers tracked in the context is greater than or equal to the effective limit: the
  override of the tenant when one is set, else the default 10 (also when the limit is
  0 or negative). For a tenant without a context it returns \<open>True\<close>, whatever the
  limit.
\<close>

theorem check_quota_max_servers:
  "(\<forall>ctx. dict_get (tenants h) tid = Some ctx \<longrightarrow>
      ((\<exists>m. check_quota h tid ''max_servers'' = Inl (QuotaExceededError m)) \<longleftrightarrow>
       int (length (ctx_servers ctx)) \<ge>
         (case (case dict_get (quotas h) tid of None \<Rightarrow> None | Some q \<Rightarrow> dict_get q ''max_servers'') of
            Some lim \<Rightarrow> lim | None \<Rightarrow> 10))) \<and>
   (dict_get (tenants h) tid = None \<longrightarrow> check_quota h tid ''max_servers'' = Inr True)"
  by (auto simp: check_quota_def get_quota_def default_quotas_def dict_get_def split: option.splits)

theorem check_quota_max_servers_witness:
  "dict_get (tenants demo_hub) ''t'' \<noteq> None \<and>
   check_quota demo_hub ''t'' ''max_servers'' = Inr True \<and>
   (\<exists>m. check_quota (set_quota ''t'' ''max_servers'' 0 demo_hub) ''t'' ''max_servers''
            = Inl (QuotaExceededError m)) \<and>
   dict_get (tenants demo_hub) ''u'' = None \<and>
   check_quota demo_hub ''u'' ''max_servers'' = Inr True"
proof -
  let ?ctx = "\<lparr>ctx_tenant_id = ''t'',
                          ctx_config = \<lparr>tc_tenant_id = ''t'', tc_description = [],
                                         tc_servers = [(''w'', demo_cfg)]\<rparr>,
                          ctx_servers = [], ctx_tools = [], ctx_created_at = 0,
                          ctx_last_activity = 0\<rparr>"
  have c: "dict_get (tenants demo_hub) ''t'' = Some ?ctx"
    by (simp add: demo_hub_eq dict_get_def)
  have c0: "dict_get (tenants (set_quota ''t'' ''max_servers'' 0 demo_hub)) ''t'' = Some ?ctx"
    by (simp add: demo_hub_eq dict_get_def set_quota_def)
  have n: "dict_get (tenants demo_hub) ''u'' = None"
    by (simp add: demo_hub_eq dict_get_def)
  have q: "quotas demo_hub = []" by (simp add: demo_hub_eq)
  have q0: "quotas (set_quota ''t'' ''max_servers'' 0 demo_hub) = [(''t'', [(''max_servers'', 0)])]"
    by (simp add: demo_hub_eq set_quota_def dict_get_def)
  have a: "\<not> (\<exists>m. check_quota demo_hub ''t'' ''max_servers'' = Inl (QuotaExceededError m))"
    using check_quota_max_servers [of demo_hub "''t''"] c q by (simp add: dict_get_def)
  have a': "check_quota demo_hub ''t'' ''max_servers'' = Inr True"
    using a by (simp add: check_quota_def c split: if_splits)
  have b: "\<exists>m. check_quota (set_quota ''t'' ''max_servers'' 0 demo_hub) ''t'' ''max_servers''
            = Inl (QuotaExceededError m)"
    using check_quota_max_servers [of "set_quota ''t'' ''max_servers'' 0 demo_hub" "''t''"] c0 q0
    by (simp add: dict_get_def)
  have d: "check_quota demo_hub ''u'' ''max_servers'' = Inr True"
    using check_quota_max_servers [of demo_hub "''u''"] n by blast
  from c a' b n d show ?thesis by simp
qed

subsection \<open>Reclaiming idle contexts\<close>

text \<open>
  C4 does not hold of the code. \<open>cleanup_inactive_tenants\<close> deletes the eligible
  context from \<open>self.tenants\<close> while it iterates over \<open>self.tenants.items()\<close>, so
  the iterator raises \<open>RuntimeError\<close> at its next step. With one context, idle for
  two hours and without workers, and a threshold of one hour, the context is removed
  and the call then raises instead of returning the list of removed ids.
\<close>

theorem cleanup_inactive_tenants_raises:
  "cleanup_inactive_tenants (\<lambda>sid. None) 7200000000 3600 demo_hub
     = (Inl (RuntimeError ''dictionary changed size during iteration''),
        demo_hub\<lparr>tenants := []\<rparr>)"
  by (simp add: cleanup_inactive_tenants_def demo_hub_eq is_active_def get_active_servers_def
      dict_values_def manager_stop_tenant_servers_def stop_tenant_servers_def new_orchestrator_def
      dict_get_def dict_keys_def dict_del_def)

subsection \<open>Worker ids in the table and in the contexts\<close>

lemma same_ids_refl: "same_ids s s"
  by (simp add: same_ids_def)

lemma same_ids_trans: "same_ids s s' \<Longrightarrow> same_ids s' s'' \<Longrightarrow> same_ids s s''"
  by (simp add: same_ids_def)

lemma same_ids_notify: "notify_observers ev s = (r, s') \<Longrightarrow> same_ids s s'"
  by (auto simp: notify_observers_def same_ids_def split: prod.splits)

lemma same_ids_upd_obj:
  "server_id (f (objects s a)) = server_id (objects s a) \<Longrightarrow> same_ids s (upd_obj a f s)"
  by (simp add: same_ids_def upd_obj_def)

lemma table_ok_same_ids: "same_ids s s' \<Longrightarrow> table_ok s \<Longrightarrow> table_ok s'"
  by (simp add: same_ids_def table_ok_def)

lemma same_ids_start_try: "start_try env sid a s = (r, s') \<Longrightarrow> same_ids s s'"
  by (auto simp: start_try_def notify_observers_def same_ids_def upd_obj_def
      split: option.splits prod.splits)

lemma same_ids_stop_try: "stop_try disc sid a s = (r, s') \<Longrightarrow> same_ids s s'"
  by (auto simp: stop_try_def notify_observers_def same_ids_def upd_obj_def
      split: option.splits if_splits prod.splits)

lemma same_ids_stop_server: "stop_server disc sid s = (r, s') \<Longrightarrow> same_ids s s'"
proof -
  assume run: "stop_server disc sid s = (r, s')"
  show ?thesis
  proof (cases "dict_get (managed_servers s) sid")
    case None
    with run show ?thesis by (simp add: stop_server_def same_ids_refl)
  next
    case (Some a)
    show ?thesis
    proof (cases "is_stopped (objects s a)")
      case True
      with run Some show ?thesis by (simp add: stop_server_def same_ids_refl)
    next
      case False
      let ?s1 = "upd_obj a (\<lambda>m. m\<lparr>state := STOPPING\<rparr>) s"
      have i1: "same_ids s ?s1" by (simp add: same_ids_upd_obj)
      obtain r2 s2 where n2: "notify_observers (''server_stopping'', [(''server_id'', sid)]) ?s1 = (r2, s2)"
        by (cases "notify_observers (''server_stopping'', [(''server_id'', sid)]) ?s1")
      have i2: "same_ids s s2" using i1 same_ids_notify [OF n2] by (rule same_ids_trans)
      obtain r3 s3 where t3: "stop_try disc sid a s2 = (r3, s3)"
        by (cases "stop_try disc sid a s2")
      have i3: "same_ids s s3" using i2 same_ids_stop_try [OF t3] by (rule same_ids_trans)
      have i4: "same_ids s (upd_obj a (\<lambda>m. m\<lparr>state := CRASHED, last_error := Some x\<rparr>) s3)" for x
        using i3 by (rule same_ids_trans) (simp add: same_ids_upd_obj)
      show ?thesis
        using run Some False i2 i3 i4 n2 t3
        by (auto simp: stop_server_def split: option.splits if_splits)
    qed
  qed
qed

lemma same_ids_stop_each: "stop_each discs sids s = (r, s') \<Longrightarrow> same_ids s s'"
proof (induction sids arbitrary: s)
  case Nil
  then show ?case by (simp add: same_ids_refl)
next
  case (Cons sid sids)
  then show ?case
    by (auto split: prod.splits option.splits
        dest: same_ids_stop_server intro: same_ids_trans)
qed

lemma same_ids_stop_tenant_servers: "stop_tenant_servers discs tid s = (r, s') \<Longrightarrow> same_ids s s'"
  by (simp add: stop_tenant_servers_def same_ids_stop_each)

lemma start_fresh_effect:
  assumes run: "start_fresh env sid tid cfg s = (r, s')" and ok: "table_ok s"
  shows "table_ok s' \<and> next_addr s' = Suc (next_addr s) \<and>
         (\<forall>a. a < next_addr s \<longrightarrow> server_id (objects s' a) = server_id (objects s a)) \<and>
         server_id (objects s' (next_addr s)) = sid \<and>
         (\<forall>a. r = Inr a \<longrightarrow> a = next_addr s)"
proof -
  define s1 where "s1 = s\<lparr>objects := (objects s)(next_addr s := \<lparr>server_id = sid, tenant_id = tid,
                     config = cfg, state = STARTING, client = None, started_at = None,
                     last_error = None, restart_count = 0\<rparr>),
                 next_addr := Suc (next_addr s),
                 managed_servers := dict_set sid (next_addr s) (managed_servers s)\<rparr>"
  have ok1: "table_ok s1"
    unfolding table_ok_def
  proof
    fix p assume "p \<in> set (managed_servers s1)"
    then have "p = (sid, next_addr s) \<or> p \<in> set (managed_servers s)"
      by (auto simp: s1_def dest: dict_set_origin)
    then show "snd p < next_addr s1 \<and> server_id (objects s1 (snd p)) = fst p"
      using ok by (auto simp: s1_def table_ok_def)
  qed
  have f1: "next_addr s1 = Suc (next_addr s)" "server_id (objects s1 (next_addr s)) = sid"
    "\<And>a. a < next_addr s \<Longrightarrow> server_id (objects s1 a) = server_id (objects s a)"
    by (simp_all add: s1_def)
  obtain r2 s2 where n2: "notify_observers (''server_starting'', [(''server_id'', sid)]) s1 = (r2, s2)"
    by (cases "notify_observers (''server_starting'', [(''server_id'', sid)]) s1")
  have i2: "same_ids s1 s2" by (rule same_ids_notify [OF n2])
  obtain r3 s3 where t3: "start_try env sid (next_addr s) s2 = (r3, s3)"
    by (cases "start_try env sid (next_addr s) s2")
  have i3: "same_ids s1 s3" using i2 same_ids_start_try [OF t3] by (rule same_ids_trans)
  have i4: "same_ids s1 (upd_obj (next_addr s) (\<lambda>m. m\<lparr>state := CRASHED, last_error := Some x\<rparr>) s3)" for x
    using i3 by (rule same_ids_trans) (simp add: same_ids_upd_obj)
  have fin: "same_ids s1 s' \<and> (\<forall>a. r = Inr a \<longrightarrow> a = next_addr s)"
    using run i2 i3 i4 n2 t3
    unfolding start_fresh_def Let_def s1_def[symmetric]
    by (auto split: prod.splits option.splits if_splits
        dest!: same_ids_notify intro: same_ids_trans)
  then have "table_ok s'" using ok1 by (blast intro: table_ok_same_ids)
  moreover from fin f1 have "next_addr s' = Suc (next_addr s)"
    "server_id (objects s' (next_addr s)) = sid"
    "\<forall>a. a < next_addr s \<longrightarrow> server_id (objects s' a) = server_id (objects s a)"
    by (simp_all add: same_ids_def)
  ultimately show ?thesis using fin by blast
qed

lemma start_server_effect:
  assumes run: "start_server env sid s = (r, s')" and ok: "table_ok s"
  shows "table_ok s' \<and> next_addr s \<le> next_addr s' \<and>
         (\<forall>a. a < next_addr s \<longrightarrow> server_id (objects s' a) = server_id (objects s a)) \<and>
         (\<forall>a. r = Inr a \<longrightarrow> a < next_addr s' \<and> server_id (objects s' a) = sid)"
proof (cases "\<exists>tid sname cfg. parse_server_id sid = Inr (tid, sname) \<and>
    get_server_config (registry s) tid sname = Some cfg \<and> running_addr s sid = None")
  case True
  then obtain tid sname cfg where "parse_server_id sid = Inr (tid, sname)"
    "get_server_config (registry s) tid sname = Some cfg" "running_addr s sid = None" by blast
  with run have "start_fresh env sid tid cfg s = (r, s')"
    by (simp add: start_server_def)
  from start_fresh_effect [OF this ok] show ?thesis by auto
next
  case False
  with run have same: "s' = s" and res: "\<forall>a. r = Inr a \<longrightarrow> running_addr s sid = Some a"
    by (auto simp: start_server_def split: sum.splits option.splits prod.splits)
  have "a < next_addr s \<and> server_id (objects s a) = sid" if "running_addr s sid = Some a" for a
  proof -
    from that have "dict_get (managed_servers s) sid = Some a"
      by (auto simp: running_addr_def split: option.splits if_splits)
    then have "(sid, a) \<in> set (managed_servers s)"
      by (simp add: dict_get_def map_of_SomeD)
    with ok show ?thesis by (auto simp: table_ok_def)
  qed
  with same res ok show ?thesis by auto
qed

lemma start_each_effect:
  "start_each envs tid cfgs started s = (Inr result, s') \<Longrightarrow> table_ok s \<Longrightarrow>
   (\<forall>a \<in> set started. a < next_addr s \<and> (\<exists>n. server_id (objects s a) = generate_server_id tid n)) \<Longrightarrow>
   table_ok s' \<and>
   (\<forall>a \<in> set result. \<exists>n. server_id (objects s' a) = generate_server_id tid n)"
proof (induction cfgs arbitrary: started s)
  case Nil
  then show ?case by auto
next
  case (Cons cfg cfgs)
  let ?sid = "generate_server_id tid (cfg_name cfg)"
  obtain r1 s1 where one: "start_server (envs ?sid) ?sid s = (r1, s1)"
    by (cases "start_server (envs ?sid) ?sid s")
  note eff = start_server_effect [OF one Cons.prems(2)]
  have old: "\<forall>a \<in> set started. a < next_addr s1 \<and> (\<exists>n. server_id (objects s1 a) = generate_server_id tid n)"
    using Cons.prems(3) eff by fastforce
  show ?case
  proof (cases r1)
    case (Inr a)
    with one Cons.prems(1) have rest: "start_each envs tid cfgs (started @ [a]) s1 = (Inr result, s')"
      by simp
    have "\<forall>b \<in> set (started @ [a]). b < next_addr s1 \<and> (\<exists>n. server_id (objects s1 b) = generate_server_id tid n)"
      using old eff Inr by auto
    from Cons.IH [OF rest _ this] eff show ?thesis by blast
  next
    case (Inl e)
    with one Cons.prems(1) have rest: "start_each envs tid cfgs started s1 = (Inr result, s')"
      by (simp split: if_splits)
    from Cons.IH [OF rest _ old] eff show ?thesis by blast
  qed
qed

lemma start_each_table_ok:
  "start_each envs tid cfgs started s = (r, s') \<Longrightarrow> table_ok s \<Longrightarrow> table_ok s'"
proof (induction cfgs arbitrary: started s)
  case Nil
  then show ?case by simp
next
  case (Cons cfg cfgs)
  then show ?case
    by (auto split: prod.splits sum.splits if_splits dest: start_server_effect)
qed

lemma start_tenant_servers_effect:
  assumes "start_tenant_servers envs tid s = (r, s')" and "table_ok s"
  shows "table_ok s' \<and>
     (\<forall>started. r = Inr started \<longrightarrow>
        (\<forall>a \<in> set started. \<exists>n. server_id (objects s' a) = generate_server_id tid n))"
proof (cases "get_tenant (registry s) tid")
  case None
  with assms show ?thesis by (auto simp: start_tenant_servers_def)
next
  case (Some tenant)
  with assms(1) have run: "start_each envs tid (get_enabled_servers tenant) [] s = (r, s')"
    by (simp add: start_tenant_servers_def)
  from start_each_table_ok [OF run assms(2)] start_each_effect [OF _ assms(2)] run
  show ?thesis by fastforce
qed

lemma dict_set_keys: "set (dict_keys (dict_set k v d)) = insert k (set (dict_keys d))"
  by (induction d) (auto simp: dict_keys_def)

lemma fold_dict_set_keys:
  "set (dict_keys (fold (\<lambda>a. dict_set (g a) a) xs d)) = g ` set xs \<union> set (dict_keys d)"
  by (induction xs arbitrary: d) (auto simp: dict_set_keys)

lemma tracked_short_names_iff:
  "S \<in> set (tracked_short_names ctx) \<longleftrightarrow>
     (\<exists>k \<in> set (dict_keys (ctx_servers ctx)). \<exists>T. parse_server_id k = Inr (T, S))"
proof -
  have one: "S \<in> set (case parse_server_id k of Inl e \<Rightarrow> [] | Inr p \<Rightarrow> [snd p]) \<longleftrightarrow>
      (\<exists>T. parse_server_id k = Inr (T, S))" for k
    by (cases "parse_server_id k") auto
  have "S \<in> set (tracked_short_names ctx) \<longleftrightarrow>
      (\<exists>k \<in> set (dict_keys (ctx_servers ctx)).
         S \<in> set (case parse_server_id k of Inl e \<Rightarrow> [] | Inr p \<Rightarrow> [snd p]))"
    by (simp add: tracked_short_names_def)
  then show ?thesis unfolding one .
qed

lemma tracked_short_names_activity [simp]:
  "tracked_short_names (ctx\<lparr>ctx_last_activity := now\<rparr>) = tracked_short_names ctx"
  by (simp add: tracked_short_names_def)

lemma generate_prefixed_name_shape:
  "generate_prefixed_name sid n = Inr pn \<Longrightarrow>
   \<exists>T S. parse_server_id sid = Inr (T, S) \<and> pn = S @ ''.'' @ n"
  by (auto simp: generate_prefixed_name_def split: sum.splits)

lemma register_each_origin_any:
  "register_each sid tis disc cat = (r, cat') \<Longrightarrow> p \<in> set cat' \<Longrightarrow>
   p \<in> set cat \<or>
   (\<exists>t\<in>set tis. \<exists>pn. generate_prefixed_name sid (ti_name t) = Inr pn \<and>
        snd p = new_registration sid pn t)"
proof (induction tis arbitrary: disc cat)
  case Nil
  then show ?case by simp
next
  case (Cons t ts)
  show ?case
  proof (cases "generate_prefixed_name sid (ti_name t)")
    case (Inl e)
    with Cons.prems show ?thesis by simp
  next
    case (Inr pn)
    with Cons.prems(1)
    have run: "register_each sid ts (disc @ [new_registration sid pn t])
          (dict_set (generate_tool_id sid (ti_name t)) (new_registration sid pn t) cat) = (r, cat')"
      by simp
    from Cons.IH [OF run Cons.prems(2)] Inr show ?thesis
      using dict_set_origin by fastforce
  qed
qed

lemma catalog_ok_register_each:
  assumes "register_each sid tis disc cat = (r, cat')" and "catalog_ok cat"
  shows "catalog_ok cat'"
  unfolding catalog_ok_def
proof
  fix p assume "p \<in> set cat'"
  from register_each_origin_any [OF assms(1) this]
  show "\<exists>T S. parse_server_id (reg_server_id (snd p)) = Inr (T, S) \<and>
         prefixed_name (snd p) = S @ ''.'' @ original_name (snd p)"
  proof
    assume "p \<in> set cat"
    with assms(2) show ?thesis by (simp add: catalog_ok_def)
  next
    assume "\<exists>t\<in>set tis. \<exists>pn. generate_prefixed_name sid (ti_name t) = Inr pn \<and>
        snd p = new_registration sid pn t"
    then obtain t pn where "generate_prefixed_name sid (ti_name t) = Inr pn"
      "snd p = new_registration sid pn t" by blast
    with generate_prefixed_name_shape [of sid "ti_name t" pn] show ?thesis
      by (auto simp: new_registration_fields)
  qed
qed

lemma catalog_ok_discover_tools:
  "discover_tools w s sid cat = (r, cat') \<Longrightarrow> catalog_ok cat \<Longrightarrow> catalog_ok cat'"
  by (auto simp: discover_tools_def split: option.splits if_splits sum.splits prod.splits
      dest: catalog_ok_register_each)

lemma catalog_ok_discover_each:
  "discover_each w s sids cat = (r, cat') \<Longrightarrow> catalog_ok cat \<Longrightarrow> catalog_ok cat'"
proof (induction sids arbitrary: cat)
  case Nil
  then show ?case by simp
next
  case (Cons sid sids)
  then show ?case
    by (auto split: prod.splits sum.splits if_splits dest: catalog_ok_discover_tools)
qed

lemma fold_dict_del_subset: "set (fold dict_del ks d) \<subseteq> set d"
proof (induction ks arbitrary: d)
  case Nil
  show ?case by simp
next
  case (Cons k ks)
  have "set (fold dict_del ks (dict_del k d)) \<subseteq> set (dict_del k d)" by (rule Cons.IH)
  also have "\<dots> \<subseteq> set d" by (auto simp: dict_del_def)
  finally show ?case by simp
qed

lemma clear_tools_subset: "set (clear_tools x cat) \<subseteq> set cat"
  by (auto simp: clear_tools_def split: option.splits dest: subsetD [OF fold_dict_del_subset])

lemma fold_clear_tools_subset:
  "set (fold (\<lambda>sid. clear_tools (Some sid)) ks cat) \<subseteq> set cat"
proof (induction ks arbitrary: cat)
  case Nil
  show ?case by simp
next
  case (Cons k ks)
  have "set (fold (\<lambda>sid. clear_tools (Some sid)) ks (clear_tools (Some k) cat))
          \<subseteq> set (clear_tools (Some k) cat)" by (rule Cons.IH)
  also have "\<dots> \<subseteq> set cat" by (rule clear_tools_subset)
  finally show ?case by simp
qed

lemma catalog_ok_subset: "set cat' \<subseteq> set cat \<Longrightarrow> catalog_ok cat \<Longrightarrow> catalog_ok cat'"
  by (auto simp: catalog_ok_def)

lemma started_tools_named:
  assumes "catalog_ok cat"
    and "name \<in> set (concat (map (\<lambda>a. map prefixed_name (get_tools_by_server cat (g a))) started))"
  shows "\<exists>a \<in> set started. \<exists>T S tname. parse_server_id (g a) = Inr (T, S) \<and> name = S @ ''.'' @ tname"
proof -
  from assms(2) obtain a reg where a: "a \<in> set started"
    and reg: "reg \<in> set (get_tools_by_server cat (g a))" "name = prefixed_name reg"
    by auto
  from reg(1) have "reg \<in> set (dict_values cat)" "reg_server_id reg = g a"
    by (simp_all add: get_tools_by_server_def)
  then obtain k where "(k, reg) \<in> set cat" by (auto simp: dict_values_def)
  with assms(1) obtain T S where "parse_server_id (reg_server_id reg) = Inr (T, S)"
    "prefixed_name reg = S @ ''.'' @ original_name reg"
    by (force simp: catalog_ok_def)
  with a reg(2) \<open>reg_server_id reg = g a\<close> show ?thesis by auto
qed

lemma hub_inv_update:
  "hub_inv h \<Longrightarrow> table_ok s \<Longrightarrow> catalog_ok cat \<Longrightarrow> context_ok tid ctx \<Longrightarrow>
   hub_inv (h\<lparr>orch := s, router := cat, tenants := dict_set tid ctx (tenants h)\<rparr>)"
  by (auto simp: hub_inv_def dest!: dict_set_origin)

lemma hub_inv_get_or_create:
  assumes run: "get_or_create_tenant now tid h = (r, h1)" and inv: "hub_inv h"
  shows "hub_inv h1 \<and> orch h1 = orch h \<and> router h1 = router h \<and>
         (\<forall>ctx. r = Inr ctx \<longrightarrow> context_ok tid ctx)"
proof (cases "dict_get (tenants h) tid")
  case (Some cx)
  then have "(tid, cx) \<in> set (tenants h)"
    by (simp add: dict_get_def map_of_SomeD)
  with inv have "context_ok tid cx" by (auto simp: hub_inv_def)
  then have ok: "context_ok tid (cx\<lparr>ctx_last_activity := now\<rparr>)"
    by (simp add: context_ok_def)
  from run Some have r: "r = Inr (cx\<lparr>ctx_last_activity := now\<rparr>)"
    and h1: "h1 = h\<lparr>tenants := dict_set tid (cx\<lparr>ctx_last_activity := now\<rparr>) (tenants h)\<rparr>"
    by (auto simp: get_or_create_tenant_def)
  have "hub_inv h1"
    using inv ok unfolding h1 by (auto simp: hub_inv_def dest!: dict_set_origin)
  with r ok h1 show ?thesis by simp
next
  case None
  show ?thesis
  proof (cases "get_tenant (registry (orch h)) tid")
    case None
    with run \<open>dict_get (tenants h) tid = None\<close> inv show ?thesis
      by (auto simp: get_or_create_tenant_def)
  next
    case (Some cfg)
    let ?ctx = "\<lparr>ctx_tenant_id = tid, ctx_config = cfg, ctx_servers = [], ctx_tools = [],
                    ctx_created_at = now, ctx_last_activity = now\<rparr>"
    have ok: "context_ok tid ?ctx" by (simp add: context_ok_def dict_keys_def)
    from run Some \<open>dict_get (tenants h) tid = None\<close>
    have r: "r = Inr ?ctx" and h1: "h1 = h\<lparr>tenants := dict_set tid ?ctx (tenants h)\<rparr>"
      by (auto simp: get_or_create_tenant_def)
    have "hub_inv h1"
      using inv ok unfolding h1 by (auto simp: hub_inv_def dest!: dict_set_origin)
    with r ok h1 show ?thesis by simp
  qed
qed

lemma hub_inv_manager_start:
  assumes run: "manager_start_tenant_servers w envs now tid h = (r, h')" and inv: "hub_inv h"
  shows "hub_inv h'"
proof -
  obtain r1 h1 where g: "get_or_create_tenant now tid h = (r1, h1)"
    by (cases "get_or_create_tenant now tid h")
  note g1 = hub_inv_get_or_create [OF g inv]
  show ?thesis
  proof (cases r1)
    case (Inl e)
    with run g g1 show ?thesis by (simp add: manager_start_tenant_servers_def)
  next
    case (Inr cx)
    with g1 have cok: "context_ok tid cx" by simp
    show ?thesis
    proof (cases "check_quota h1 tid ''max_servers''")
      case (Inl e)
      with run g g1 \<open>r1 = Inr cx\<close> show ?thesis
        by (simp add: manager_start_tenant_servers_def)
    next
      case ok: (Inr b)
      obtain r2 s2 where st: "start_tenant_servers envs tid (orch h1) = (r2, s2)"
        by (cases "start_tenant_servers envs tid (orch h1)")
      from g1 have i1: "hub_inv h1" by simp
      then have t1: "table_ok (orch h1)" and c1: "catalog_ok (router h1)"
        by (simp_all add: hub_inv_def)
      note eff = start_tenant_servers_effect [OF st t1]
      then have t2: "table_ok s2" by simp
      show ?thesis
      proof (cases r2)
        case (Inl e)
        with run g st ok \<open>r1 = Inr cx\<close> have "h' = h1\<lparr>orch := s2\<rparr>"
          by (simp add: manager_start_tenant_servers_def)
        with i1 t2 show ?thesis by (simp add: hub_inv_def)
      next
        case started: (Inr started)
        let ?g = "\<lambda>a. server_id (objects s2 a)"
        let ?servers = "fold (\<lambda>a. dict_set (?g a) a) started (ctx_servers cx)"
        have keys_eq: "set (dict_keys ?servers) = ?g ` set started \<union> set (dict_keys (ctx_servers cx))"
          by (rule fold_dict_set_keys)
        have keys: "\<forall>k \<in> set (dict_keys ?servers). \<exists>n. k = generate_server_id tid n"
          using eff started cok by (auto simp: keys_eq context_ok_def)
        have old_tools: "\<forall>name \<in> set (ctx_tools cx).
            \<exists>S \<in> set (tracked_short_names (cx\<lparr>ctx_servers := ?servers\<rparr>)). \<exists>tname. name = S @ ''.'' @ tname"
        proof
          fix name assume "name \<in> set (ctx_tools cx)"
          with cok obtain S tname where "S \<in> set (tracked_short_names cx)" "name = S @ ''.'' @ tname"
            by (auto simp: context_ok_def)
          moreover from this(1) have "S \<in> set (tracked_short_names (cx\<lparr>ctx_servers := ?servers\<rparr>))"
            by (auto simp: tracked_short_names_iff keys_eq)
          ultimately show "\<exists>S \<in> set (tracked_short_names (cx\<lparr>ctx_servers := ?servers\<rparr>)).
              \<exists>tname. name = S @ ''.'' @ tname" by blast
        qed
        have ok1: "context_ok tid (cx\<lparr>ctx_servers := ?servers\<rparr>)"
          using keys cok old_tools by (simp add: context_ok_def)
        obtain r3 cat' where d: "discover_each w s2 (map ?g started) (router h1) = (r3, cat')"
          by (cases "discover_each w s2 (map ?g started) (router h1)")
        from catalog_ok_discover_each [OF d c1] have c2: "catalog_ok cat'" .
        let ?tools = "concat (map (\<lambda>a. map prefixed_name (get_tools_by_server cat' (?g a))) started)"
        have new_tools: "\<forall>name \<in> set ?tools.
            \<exists>S \<in> set (tracked_short_names (cx\<lparr>ctx_servers := ?servers\<rparr>)). \<exists>tname. name = S @ ''.'' @ tname"
        proof
          fix name assume "name \<in> set ?tools"
          from started_tools_named [OF c2 this]
          obtain a T S tname where "a \<in> set started" "parse_server_id (?g a) = Inr (T, S)"
            "name = S @ ''.'' @ tname" by blast
          moreover from this(1,2) have "S \<in> set (tracked_short_names (cx\<lparr>ctx_servers := ?servers\<rparr>))"
            by (auto simp: tracked_short_names_iff keys_eq)
          ultimately show "\<exists>S \<in> set (tracked_short_names (cx\<lparr>ctx_servers := ?servers\<rparr>)).
              \<exists>tname. name = S @ ''.'' @ tname" by blast
        qed
        have same_names: "tracked_short_names (cx\<lparr>ctx_servers := ?servers, ctx_tools := ?tools,
              ctx_last_activity := now\<rparr>) = tracked_short_names (cx\<lparr>ctx_servers := ?servers\<rparr>)"
          by (simp add: tracked_short_names_def)
        have ok2: "context_ok tid (cx\<lparr>ctx_servers := ?servers, ctx_tools := ?tools,
              ctx_last_activity := now\<rparr>)"
          using keys cok new_tools unfolding context_ok_def same_names by simp
        show ?thesis
        proof (cases r3)
          case None
          with run g st ok d started \<open>r1 = Inr cx\<close>
          have "h' = h1\<lparr>orch := s2, router := cat',
                  tenants := dict_set tid (cx\<lparr>ctx_servers := ?servers, ctx_tools := ?tools,
                     ctx_last_activity := now\<rparr>) (tenants h1)\<rparr>"
            by (simp add: manager_start_tenant_servers_def)
          then show ?thesis using hub_inv_update [OF i1 t2 c2 ok2] by simp
        next
          case (Some e)
          with run g st ok d started \<open>r1 = Inr cx\<close>
          have "h' = h1\<lparr>orch := s2, router := cat',
                  tenants := dict_set tid (cx\<lparr>ctx_servers := ?servers\<rparr>) (tenants h1)\<rparr>"
            by (simp add: manager_start_tenant_servers_def)
          then show ?thesis using hub_inv_update [OF i1 t2 c2 ok1] by simp
        qed
      qed
    qed
  qed
qed

lemma hub_inv_manager_stop:
  assumes run: "manager_stop_tenant_servers discs now tid h = (r, h')" and inv: "hub_inv h"
  shows "hub_inv h'"
proof -
  obtain r1 s1 where st: "stop_tenant_servers discs tid (orch h) = (r1, s1)"
    by (cases "stop_tenant_servers discs tid (orch h)")
  from inv have "table_ok (orch h)" and c0: "catalog_ok (router h)" by (simp_all add: hub_inv_def)
  with same_ids_stop_tenant_servers [OF st] have t1: "table_ok s1"
    by (blast intro: table_ok_same_ids)
  have plain: "hub_inv (h\<lparr>orch := s1\<rparr>)" using inv t1 by (simp add: hub_inv_def)
  show ?thesis
  proof (cases "r1 = None \<and> dict_get (tenants h) tid \<noteq> None")
    case False
    with run st plain show ?thesis
      by (auto simp: manager_stop_tenant_servers_def split: option.splits)
  next
    case True
    then obtain cx where c: "dict_get (tenants h) tid = Some cx" by auto
    then have "(tid, cx) \<in> set (tenants h)"
      by (simp add: dict_get_def map_of_SomeD)
    with inv have ok: "context_ok tid (cx\<lparr>ctx_servers := [], ctx_tools := [], ctx_last_activity := now\<rparr>)"
      by (auto simp: hub_inv_def context_ok_def dict_keys_def)
    let ?cat = "fold (\<lambda>sid. clear_tools (Some sid)) (dict_keys (ctx_servers cx)) (router h)"
    have c1: "catalog_ok ?cat"
      using fold_clear_tools_subset c0 by (rule catalog_ok_subset)
    from run st True c
    have "h' = h\<lparr>orch := s1, router := ?cat,
                 tenants := dict_set tid
                   (cx\<lparr>ctx_servers := [], ctx_tools := [], ctx_last_activity := now\<rparr>)
                   (tenants h)\<rparr>"
      by (simp add: manager_stop_tenant_servers_def)
    then show ?thesis using hub_inv_update [OF inv t1 c1 ok] by simp
  qed
qed

lemma hub_inv_reachable: "hub_reachable h \<Longrightarrow> hub_inv h"
proof (induction rule: hub_reachable.induct)
  case (h_init reg)
  show ?case
    by (simp add: hub_inv_def new_hub_def table_ok_def new_orchestrator_def catalog_ok_def)
next
  case (h_set_quota h tid quota_type lim)
  then show ?case by (simp add: hub_inv_def set_quota_def)
next
  case (h_get_or_create h now tid)
  then show ?case using hub_inv_get_or_create [OF surjective_pairing] by blast
next
  case (h_start h w envs now tid)
  then show ?case using hub_inv_manager_start [OF surjective_pairing] by blast
next
  case (h_stop h discs now tid)
  then show ?case using hub_inv_manager_stop [OF surjective_pairing] by blast
qed

lemma separated_names_differ:
  "\<not> prefix (a @ sep) (b @ sep) \<Longrightarrow> \<not> prefix (b @ sep) (a @ sep) \<Longrightarrow>
   a @ sep @ x \<noteq> b @ sep @ y"
proof
  assume np: "\<not> prefix (a @ sep) (b @ sep)" "\<not> prefix (b @ sep) (a @ sep)"
    and eq: "a @ sep @ x = b @ sep @ y"
  have "prefix (a @ sep) (a @ sep @ x)" by (simp add: prefix_def)
  moreover have "prefix (b @ sep) (a @ sep @ x)" by (simp add: eq prefix_def)
  ultimately have "prefix (a @ sep) (b @ sep) \<or> prefix (b @ sep) (a @ sep)"
    by (rule prefix_same_cases)
  with np show False by blast
qed

lemma separator_free_not_prefix:
  assumes "c \<notin> set a" and "c \<notin> set b" and "a \<noteq> b"
  shows "\<not> prefix (a @ [c]) (b @ [c])"
proof
  assume "prefix (a @ [c]) (b @ [c])"
  then obtain z where z: "b @ [c] = a @ [c] @ z" by (auto simp: prefix_def)
  have "takeWhile (\<lambda>x. x \<noteq> c) (b @ [c]) = b" "takeWhile (\<lambda>x. x \<noteq> c) (a @ [c] @ z) = a"
    using assms(1,2) by (auto simp: takeWhile_tail)
  with z assms(3) show False by simp
qed

subsection \<open>Isolation of tenant contexts\<close>

text \<open>
  C9, as stated, fails for the tool names: a dotted name leaves the tenant id out, so
  two tenants that each run a worker \<open>echo\<close> exposing \<open>add\<close> both hold the tool
  name \<open>echo.add\<close>.
\<close>

theorem tenant_tool_names_overlap:
  "hub_reachable twin_hub \<and>
   map_option ctx_tools (dict_get (tenants twin_hub) ''t1'') = Some [''echo.add''] \<and>
   map_option ctx_tools (dict_get (tenants twin_hub) ''t2'') = Some [''echo.add'']"
proof -
  have "hub_reachable twin_hub"
    unfolding twin_hub_def twin_hub1_def by (intro h_start h_init)
  with twin_hub_contexts show ?thesis by simp
qed

text \<open>
  C9, amended: after any sequence of \<open>set_quota\<close>, \<open>get_or_create_tenant\<close> and the
  manager's \<open>start_tenant_servers\<close> and \<open>stop_tenant_servers\<close>, the contexts of two
  distinct tenant ids are distinct, each carrying its own tenant id. Their tracked
  worker ids are disjoint provided neither tenant id followed by a colon is a prefix
  of the other followed by a colon (so for all tenant ids without a colon). Their tool
  names are disjoint provided no short name of a worker tracked by one, followed by a
  dot, is a prefix of a short name of a worker tracked by the other, followed by a dot
  (so whenever the tracked short names of the two differ and contain no dot).
\<close>

theorem tenant_contexts_isolated:
  assumes "hub_reachable h"
    and "dict_get (tenants h) t1 = Some c1" and "dict_get (tenants h) t2 = Some c2"
    and "t1 \<noteq> t2"
  shows "c1 \<noteq> c2 \<and> ctx_tenant_id c1 = t1 \<and> ctx_tenant_id c2 = t2 \<and>
     (\<not> prefix (t1 @ '':'') (t2 @ '':'') \<and> \<not> prefix (t2 @ '':'') (t1 @ '':'') \<longrightarrow>
        set (dict_keys (ctx_servers c1)) \<inter> set (dict_keys (ctx_servers c2)) = {}) \<and>
     ((\<forall>S1 \<in> set (tracked_short_names c1). \<forall>S2 \<in> set (tracked_short_names c2).
          \<not> prefix (S1 @ ''.'') (S2 @ ''.'') \<and> \<not> prefix (S2 @ ''.'') (S1 @ ''.'')) \<longrightarrow>
        set (ctx_tools c1) \<inter> set (ctx_tools c2) = {})"
proof -
  from assms(1) have inv: "hub_inv h" by (rule hub_inv_reachable)
  from assms(2,3) have "(t1, c1) \<in> set (tenants h)" "(t2, c2) \<in> set (tenants h)"
    by (simp_all add: dict_get_def map_of_SomeD)
  with inv have ok: "context_ok t1 c1" "context_ok t2 c2"
    by (auto simp: hub_inv_def)
  have ids: "ctx_tenant_id c1 = t1" "ctx_tenant_id c2 = t2"
    using ok by (simp_all add: context_ok_def)
  with assms(4) have diff: "c1 \<noteq> c2" by auto
  have workers: "set (dict_keys (ctx_servers c1)) \<inter> set (dict_keys (ctx_servers c2)) = {}"
    if sep: "\<not> prefix (t1 @ '':'') (t2 @ '':'')" "\<not> prefix (t2 @ '':'') (t1 @ '':'')"
  proof -
    have False if "k \<in> set (dict_keys (ctx_servers c1))" "k \<in> set (dict_keys (ctx_servers c2))" for k
    proof -
      from that(1) ok(1) obtain n1 where 1: "k = t1 @ '':'' @ n1"
        by (auto simp: context_ok_def generate_server_id_def)
      from that(2) ok(2) obtain n2 where 2: "k = t2 @ '':'' @ n2"
        by (auto simp: context_ok_def generate_server_id_def)
      from separated_names_differ [OF sep, of n1 n2] 1 2 show False by simp
    qed
    then show ?thesis by blast
  qed
  have tools: "set (ctx_tools c1) \<inter> set (ctx_tools c2) = {}"
    if sep: "\<forall>S1 \<in> set (tracked_short_names c1). \<forall>S2 \<in> set (tracked_short_names c2).
          \<not> prefix (S1 @ ''.'') (S2 @ ''.'') \<and> \<not> prefix (S2 @ ''.'') (S1 @ ''.'')"
  proof -
    have False if "name \<in> set (ctx_tools c1)" "name \<in> set (ctx_tools c2)" for name
    proof -
      from that(1) ok(1) obtain S1 x where 1: "S1 \<in> set (tracked_short_names c1)" "name = S1 @ ''.'' @ x"
        by (auto simp: context_ok_def)
      from that(2) ok(2) obtain S2 y where 2: "S2 \<in> set (tracked_short_names c2)" "name = S2 @ ''.'' @ y"
        by (auto simp: context_ok_def)
      from sep 1(1) 2(1) have "\<not> prefix (S1 @ ''.'') (S2 @ ''.'')" "\<not> prefix (S2 @ ''.'') (S1 @ ''.'')"
        by blast+
      from separated_names_differ [OF this, of x y] 1(2) 2(2) show False by simp
    qed
    then show ?thesis by blast
  qed
  from diff ids workers tools show ?thesis by blast
qed

lemma pair_hub1_eq:
  "pair_hub1 =
     \<lparr>orch = \<lparr>registry = pair_registry, managed_servers = [(''t1:echo'', 0)],
              objects = (\<lambda>a. blank_server)
                (0 := \<lparr>server_id = ''t1:echo'', tenant_id = ''t1'',
                       config = demo_cfg\<lparr>cfg_name := ''echo''\<rparr>, state = RUNNING, client = Some 1,
                       started_at = Some 1000, last_error = None, restart_count = 0\<rparr>),
              next_addr = 1, observers = [], delivered = []\<rparr>,
      router = [(''t1:echo:add'', \<lparr>tool_id = ''t1:echo:add'', reg_server_id = ''t1:echo'',
                   original_name = ''add'', prefixed_name = ''echo.add'', description = ''adds'',
                   input_schema = ''{}''\<rparr>)],
      tenants = [(''t1'', \<lparr>ctx_tenant_id = ''t1'',
                   ctx_config = \<lparr>tc_tenant_id = ''t1'', tc_description = [],
                      tc_servers = [(''echo'', demo_cfg\<lparr>cfg_name := ''echo''\<rparr>)]\<rparr>,
                   ctx_servers = [(''t1:echo'', 0)], ctx_tools = [''echo.add''],
                   ctx_created_at = 10, ctx_last_activity = 10\<rparr>)],
      quotas = []\<rparr>"
  by (simp add: pair_hub1_def new_hub_def new_orchestrator_def pair_registry_def twin_envs_def
      demo_env_def demo_cfg_def demo_world_def parse_twin_ids eval_defs)

lemma parse_ping_id: "parse_server_id ''t2:ping'' = Inr (''t2'', ''ping'')"
  by (simp add: parse_server_id_def)

lemma pair_hub_contexts:
  "map_option ctx_servers (dict_get (tenants pair_hub) ''t1'') = Some [(''t1:echo'', 0)]"
  "map_option ctx_servers (dict_get (tenants pair_hub) ''t2'') = Some [(''t2:ping'', 1)]"
  "map_option ctx_tools (dict_get (tenants pair_hub) ''t1'') = Some [''echo.add'']"
  "map_option ctx_tools (dict_get (tenants pair_hub) ''t2'') = Some [''ping.add'']"
  by (simp_all add: pair_hub_def pair_hub1_eq pair_registry_def twin_envs_def
      demo_env_def demo_cfg_def demo_world_def parse_twin_ids parse_ping_id eval_defs)

theorem tenant_contexts_isolated_witness:
  "hub_reachable pair_hub \<and>
   \<not> prefix (''t1'' @ '':'') (''t2'' @ '':'') \<and> \<not> prefix (''t2'' @ '':'') (''t1'' @ '':'') \<and>
   \<not> prefix (''echo'' @ ''.'') (''ping'' @ ''.'') \<and> \<not> prefix (''ping'' @ ''.'') (''echo'' @ ''.'') \<and>
   (\<exists>c1 c2. dict_get (tenants pair_hub) ''t1'' = Some c1 \<and>
            dict_get (tenants pair_hub) ''t2'' = Some c2 \<and> c1 \<noteq> c2 \<and>
            dict_keys (ctx_servers c1) = [''t1:echo''] \<and>
            dict_keys (ctx_servers c2) = [''t2:ping''] \<and>
            tracked_short_names c1 = [''echo''] \<and> tracked_short_names c2 = [''ping''] \<and>
            ctx_tools c1 = [''echo.add''] \<and> ctx_tools c2 = [''ping.add''] \<and>
            set (dict_keys (ctx_servers c1)) \<inter> set (dict_keys (ctx_servers c2)) = {} \<and>
            set (ctx_tools c1) \<inter> set (ctx_tools c2) = {})"
proof -
  have r: "hub_reachable pair_hub"
    unfolding pair_hub_def pair_hub1_def by (intro h_start h_init)
  from pair_hub_contexts obtain c1 c2 where
    c: "dict_get (tenants pair_hub) ''t1'' = Some c1" "dict_get (tenants pair_hub) ''t2'' = Some c2"
    and k: "ctx_servers c1 = [(''t1:echo'', 0)]" "ctx_servers c2 = [(''t2:ping'', 1)]"
    and tl: "ctx_tools c1 = [''echo.add'']" "ctx_tools c2 = [''ping.add'']"
    by auto
  have ne: "''t1'' \<noteq> ''t2''" by simp
  have sn: "tracked_short_names c1 = [''echo'']" "tracked_short_names c2 = [''ping'']"
    by (simp_all add: tracked_short_names_def k dict_keys_def parse_twin_ids parse_ping_id)
  have p1: "\<not> prefix (''t1'' @ '':'') (''t2'' @ '':'') \<and> \<not> prefix (''t2'' @ '':'') (''t1'' @ '':'')"
    by simp
  have p2: "\<not> prefix (''echo'' @ ''.'') (''ping'' @ ''.'') \<and> \<not> prefix (''ping'' @ ''.'') (''echo'' @ ''.'')"
    by simp
  have p2': "\<forall>S1 \<in> set (tracked_short_names c1). \<forall>S2 \<in> set (tracked_short_names c2).
          \<not> prefix (S1 @ ''.'') (S2 @ ''.'') \<and> \<not> prefix (S2 @ ''.'') (S1 @ ''.'')"
    using p2 by (simp add: sn)
  from tenant_contexts_isolated [OF r c ne] p1 p2'
  have "c1 \<noteq> c2 \<and>
        set (dict_keys (ctx_servers c1)) \<inter> set (dict_keys (ctx_servers c2)) = {} \<and>
        set (ctx_tools c1) \<inter> set (ctx_tools c2) = {}"
    by blast
  with r c k tl sn p1 p2 show ?thesis by (simp add: dict_keys_def)
qed

text \<open>
  The two conditions follow for names without the separator: distinct tenant ids
  without a colon, and distinct short names without a dot, meet them.
\<close>

lemma colon_free_tenants_separate:
  "CHR '':'' \<notin> set t1 \<Longrightarrow> CHR '':'' \<notin> set t2 \<Longrightarrow> t1 \<noteq> t2 \<Longrightarrow>
   \<not> prefix (t1 @ '':'') (t2 @ '':'') \<and> \<not> prefix (t2 @ '':'') (t1 @ '':'')"
  using separator_free_not_prefix [of "CHR '':''" t1 t2]
    separator_free_not_prefix [of "CHR '':''" t2 t1] by auto

lemma dot_free_short_names_separate:
  "CHR ''.'' \<notin> set S1 \<Longrightarrow> CHR ''.'' \<notin> set S2 \<Longrightarrow> S1 \<noteq> S2 \<Longrightarrow>
   \<not> prefix (S1 @ ''.'') (S2 @ ''.'') \<and> \<not> prefix (S2 @ ''.'') (S1 @ ''.'')"
  using separator_free_not_prefix [of "CHR ''.''" S1 S2]
    separator_free_not_prefix [of "CHR ''.''" S2 S1] by auto

text \<open>
  The condition on the tenant ids is needed: \<open>start_server\<close> splits a worker id at its
  first colon, so the worker \<open>c\<close> of tenant \<open>a:b\<close> and the worker \<open>b:c\<close> of tenant
  \<open>a\<close> are the same worker \<open>a:b:c\<close>, tracked by both contexts.
\<close>

lemma parse_colon_id: "parse_server_id ''a:b:c'' = Inr (''a'', ''b:c'')"
  by (simp add: parse_server_id_def)

lemma colon_hub1_eq:
  "colon_hub1 =
     \<lparr>orch = \<lparr>registry = colon_registry, managed_servers = [(''a:b:c'', 0)],
              objects = (\<lambda>a. blank_server)
                (0 := \<lparr>server_id = ''a:b:c'', tenant_id = ''a'',
                       config = demo_cfg\<lparr>cfg_name := ''b:c''\<rparr>, state = RUNNING, client = Some 7,
                       started_at = Some 1000, last_error = None, restart_count = 0\<rparr>),
              next_addr = 1, observers = [], delivered = []\<rparr>,
      router = [(''a:b:c:add'', \<lparr>tool_id = ''a:b:c:add'', reg_server_id = ''a:b:c'',
                   original_name = ''add'', prefixed_name = ''b:c.add'', description = ''adds'',
                   input_schema = ''{}''\<rparr>)],
      tenants = [(''a:b'', \<lparr>ctx_tenant_id = ''a:b'',
                   ctx_config = \<lparr>tc_tenant_id = ''a:b'', tc_description = [],
                      tc_servers = [(''c'', demo_cfg\<lparr>cfg_name := ''c''\<rparr>)]\<rparr>,
                   ctx_servers = [(''a:b:c'', 0)], ctx_tools = [''b:c.add''],
                   ctx_created_at = 10, ctx_last_activity = 10\<rparr>)],
      quotas = []\<rparr>"
  by (simp add: colon_hub1_def new_hub_def new_orchestrator_def colon_registry_def
      demo_env_def demo_cfg_def demo_world_def parse_colon_id eval_defs)

lemma tenant_workers_overlap_with_colon:
  "map_option ctx_servers (dict_get (tenants colon_hub) ''a:b'') = Some [(''a:b:c'', 0)] \<and>
   map_option ctx_servers (dict_get (tenants colon_hub) ''a'') = Some [(''a:b:c'', 0)]"
  by (simp add: colon_hub_def colon_hub1_eq colon_registry_def
      demo_env_def demo_cfg_def demo_world_def parse_colon_id eval_defs)

end
